theory Spec2Isabelle
  imports Complex_Main "HOL-Library.AList"
begin

section \<open>Conventions of the embedding\<close>

text \<open>
  The JavaScript sources are embedded shallowly. A JavaScript number is in the first
  place a real number: the model covers finite values with exact arithmetic, so rounding
  and overflow of IEEE doubles are outside it. The non-finite values enter only where the
  code itself writes them or can compute them from finite ones: \<open>Infinity\<close> and
  \<open>-Infinity\<close> as the initial running extremes of a baseline record, \<open>NaN\<close> as the
  square root of a negative variance, and \<open>Infinity\<close> as a positive number divided by a
  zero threshold. The two zeros of IEEE arithmetic are not told apart.

  Whether the sum of squared deviations keeps its sign, and what a round trip through
  JSON gives back, depends on overflow. For these statements the baseline manager is
  embedded a second time, over numbers that include the infinities and \<open>NaN\<close>.

  A mutable object is a record that is passed in and returned updated; \<open>null\<close> and
  \<open>undefined\<close> results are \<open>None\<close>. A JavaScript \<open>Map\<close> is an association list in
  insertion order: \<open>map_of\<close> is \<open>get\<close>, and \<open>AList.update\<close> is \<open>set\<close> (an existing key
  keeps its place, a new key goes to the end).

  A block that can throw returns a completion: the state it leaves behind, marked
  \<open>Normal\<close> or \<open>Throw\<close> with the exception. What was mutated before a \<open>throw\<close> stays
  mutated, so both alternatives carry the state.
\<close>

datatype ('e, 's) completion = Normal 's | Throw 'e 's

fun state_of :: "('e, 's) completion \<Rightarrow> 's" where
  "state_of (Normal s) = s"
| "state_of (Throw e s) = s"

fun thrown :: "('e, 's) completion \<Rightarrow> 'e option" where
  "thrown (Normal s) = None"
| "thrown (Throw e s) = Some e"

section \<open>RingBuffer (src/utils/RingBuffer.js)\<close>

text \<open>
  \<open>new Array(capacity)\<close> is an array of \<open>capacity\<close> holes; a hole, like every read
  outside the array, yields \<open>undefined\<close>, which is \<open>None\<close> here. The capacity is a
  natural number. For a positive capacity \<open>head\<close> stays below it, so the write
  \<open>buffer[head] = item\<close> is always inside the array. (For capacity 0 JavaScript
  computes \<open>head = NaN\<close>; \<open>count\<close> stays 0 and \<open>toArray\<close> returns the empty array
  there as it does here.)
\<close>

record 'a RingBuffer =
  rb_capacity :: nat
  rb_buffer :: "'a option list"
  rb_head :: nat
  rb_count :: nat

definition RingBuffer_new :: "nat \<Rightarrow> 'a RingBuffer" where
  "RingBuffer_new capacity =
     \<lparr>rb_capacity = capacity, rb_buffer = replicate capacity None, rb_head = 0, rb_count = 0\<rparr>"

definition push :: "'a \<Rightarrow> 'a RingBuffer \<Rightarrow> 'a RingBuffer" where
  "push item rb =
     (let rb1 = rb\<lparr>rb_buffer := (rb_buffer rb)[rb_head rb := Some item]\<rparr>;
          rb2 = rb1\<lparr>rb_head := (rb_head rb1 + 1) mod rb_capacity rb1\<rparr>
      in if rb_count rb2 < rb_capacity rb2 then rb2\<lparr>rb_count := rb_count rb2 + 1\<rparr> else rb2)"

definition js_index :: "'a option list \<Rightarrow> nat \<Rightarrow> 'a option" where
  \<comment> \<open>\<open>xs[i]\<close>: a read past the end is \<open>undefined\<close>\<close>
  "js_index xs i = (if i < length xs then xs ! i else None)"

definition toArray :: "'a RingBuffer \<Rightarrow> 'a option list" where
  "toArray rb =
     (if rb_count rb = 0 then []
      else let start = (if rb_count rb < rb_capacity rb then 0 else rb_head rb)
           in map (\<lambda>i. js_index (rb_buffer rb) ((start + i) mod rb_capacity rb)) [0..<rb_count rb])"

definition rb_length :: "'a RingBuffer \<Rightarrow> nat" where
  "rb_length rb = rb_count rb"

definition latest :: "'a RingBuffer \<Rightarrow> 'a option" where
  \<comment> \<open>\<open>head - 1\<close> is \<open>-1\<close> for \<open>head = 0\<close>, so the index is computed over the integers\<close>
  "latest rb =
     (if rb_count rb = 0 then None
      else js_index (rb_buffer rb)
             (nat ((int (rb_head rb) - 1 + int (rb_capacity rb)) mod int (rb_capacity rb))))"

text \<open>Pushing a sequence of items, first item first.\<close>

definition push_all :: "'a list \<Rightarrow> 'a RingBuffer \<Rightarrow> 'a RingBuffer" where
  "push_all xs rb = foldl (\<lambda>r x. push x r) rb xs"

section \<open>BaselineManager (src/unnamed/part_003)\<close>

text \<open>
  The running extremes start at \<open>Infinity\<close> and \<open>-Infinity\<close>, and \<open>restore\<close> can store
  a JSON \<open>null\<close> there; \<open>Math.min\<close> and \<open>Math.max\<close> convert \<open>null\<close> to 0. The sample
  count is a natural number.
\<close>

datatype extreme = Fin real | Infinity | NegInfinity | Null

fun Math_min :: "extreme \<Rightarrow> real \<Rightarrow> extreme" where
  "Math_min (Fin a) v = Fin (min a v)"
| "Math_min Infinity v = Fin v"
| "Math_min NegInfinity v = NegInfinity"
| "Math_min Null v = Fin (min 0 v)"

fun Math_max :: "extreme \<Rightarrow> real \<Rightarrow> extreme" where
  "Math_max (Fin a) v = Fin (max a v)"
| "Math_max Infinity v = Infinity"
| "Math_max NegInfinity v = Fin v"
| "Math_max Null v = Fin (max 0 v)"

text \<open>\<open>Math.sqrt\<close> of a negative number is \<open>NaN\<close>.\<close>

datatype num = Num real | NaN

definition Math_sqrt :: "real \<Rightarrow> num" where
  "Math_sqrt x = (if x < 0 then NaN else Num (sqrt x))"

record BaselineData =
  bd_values :: "real RingBuffer"
  bd_count :: nat
  bd_mean :: real
  bd_m2 :: real
  bd_min :: extreme
  bd_max :: extreme

record BaselineManager =
  baselines :: "(string \<times> BaselineData) list"
  minSamples :: real

record snapshot =
  bs_mean :: real
  bs_stdDev :: num
  bs_variance :: real
  bs_min :: extreme
  bs_max :: extreme
  bs_p50 :: real
  bs_p90 :: real
  bs_p95 :: real
  bs_p99 :: real
  bs_sampleCount :: nat

definition BaselineManager_new :: "real \<Rightarrow> real \<Rightarrow> BaselineManager" where
  "BaselineManager_new learningPeriodSeconds sampleRateHz =
     \<lparr>baselines = [], minSamples = learningPeriodSeconds * sampleRateHz\<rparr>"

definition new_data :: BaselineData where
  \<comment> \<open>the object literal of \<open>record\<close>, lines 25 to 32\<close>
  "new_data = \<lparr>bd_values = RingBuffer_new 500, bd_count = 0, bd_mean = 0, bd_m2 = 0,
                bd_min = Infinity, bd_max = NegInfinity\<rparr>"

text \<open>
  \<open>record(metricName, value)\<close>. The name \<open>record\<close> is a keyword of Isabelle, hence
  \<open>record_value\<close>. A record that is missing is created and then updated in place; in the
  association list both end in one \<open>AList.update\<close>, which appends a new name.
\<close>

definition record_value :: "string \<Rightarrow> real \<Rightarrow> BaselineManager \<Rightarrow> BaselineManager" where
  "record_value metricName val bm =
     (let data0 = (case map_of (baselines bm) metricName of None \<Rightarrow> new_data | Some d \<Rightarrow> d);
          data1 = data0\<lparr>bd_values := push val (bd_values data0)\<rparr>;
          data2 = data1\<lparr>bd_count := bd_count data1 + 1\<rparr>;
          delta = val - bd_mean data2;
          data3 = data2\<lparr>bd_mean := bd_mean data2 + delta / real (bd_count data2)\<rparr>;
          delta2 = val - bd_mean data3;
          data4 = data3\<lparr>bd_m2 := bd_m2 data3 + delta * delta2\<rparr>;
          data5 = data4\<lparr>bd_min := Math_min (bd_min data4) val\<rparr>;
          data6 = data5\<lparr>bd_max := Math_max (bd_max data5) val\<rparr>
      in bm\<lparr>baselines := AList.update metricName data6 (baselines bm)\<rparr>)"

definition isReady :: "BaselineManager \<Rightarrow> string \<Rightarrow> bool" where
  "isReady bm metricName =
     ((case map_of (baselines bm) metricName of None \<Rightarrow> 0 | Some d \<Rightarrow> real (bd_count d))
        \<ge> minSamples bm)"

text \<open>
  \<open>Array.prototype.sort\<close> with the comparator \<open>(a, b) => a - b\<close> orders the numbers
  ascending and puts every \<open>undefined\<close> last. \<open>xs[i] ?? 0\<close> is 0 where the read is
  \<open>undefined\<close>.
\<close>

definition js_sort :: "real option list \<Rightarrow> real option list" where
  "js_sort xs = map Some (sort (List.map_filter id xs)) @ filter (\<lambda>x. x = None) xs"

definition percentile :: "real option list \<Rightarrow> real \<Rightarrow> real" where
  \<comment> \<open>\<open>sorted[Math.floor(n * k)] ?? 0\<close>\<close>
  "percentile sorted_arr k =
     (case js_index sorted_arr (nat \<lfloor>real (length sorted_arr) * k\<rfloor>) of
        None \<Rightarrow> 0 | Some x \<Rightarrow> x)"

definition getBaseline :: "BaselineManager \<Rightarrow> string \<Rightarrow> snapshot option" where
  "getBaseline bm metricName =
     (case map_of (baselines bm) metricName of
        None \<Rightarrow> None
      | Some data \<Rightarrow>
          if \<not> isReady bm metricName then None
          else
            let variance = (if bd_count data > 1 then bd_m2 data / (real (bd_count data) - 1) else 0);
                stdDev = Math_sqrt variance;
                sorted_arr = js_sort (toArray (bd_values data))
            in Some \<lparr>bs_mean = bd_mean data, bs_stdDev = stdDev, bs_variance = variance,
                      bs_min = bd_min data, bs_max = bd_max data,
                      bs_p50 = percentile sorted_arr 0.5, bs_p90 = percentile sorted_arr 0.9,
                      bs_p95 = percentile sorted_arr 0.95, bs_p99 = percentile sorted_arr 0.99,
                      bs_sampleCount = bd_count data\<rparr>)"

definition getValues :: "BaselineManager \<Rightarrow> string \<Rightarrow> real option list" where
  "getValues bm metricName =
     (case map_of (baselines bm) metricName of None \<Rightarrow> [] | Some d \<Rightarrow> toArray (bd_values d))"

subsection \<open>restore\<close>

text \<open>
  \<open>JSON.parse\<close> is a built-in of the platform, not code of the repository. A JSON text
  is represented by what \<open>JSON.parse\<close> makes of it: it throws a \<open>SyntaxError\<close> on a
  malformed text, and otherwise returns \<open>null\<close> or an object whose entries, in the order
  of \<open>Object.entries\<close>, are \<open>null\<close> or an object with the five members that
  \<open>serialize\<close> writes: a count, a finite mean and sum of squared deviations, and a
  minimum and a maximum that are a finite number or \<open>null\<close> (\<open>None\<close>). Texts of any
  other shape, which \<open>restore\<close> does not check for, are outside this type. This is what
  the statement on a failing \<open>restore\<close> needs; \<open>serialize\<close>, and members that are not
  finite, belong to the second embedding.
\<close>

record saved =
  s_count :: nat
  s_mean :: real
  s_m2 :: real
  s_min :: "real option"
  s_max :: "real option"

datatype saved_value = SavedNull | SavedObject saved

datatype json_text = Malformed | JsonNull | JsonObject "(string \<times> saved_value) list"

datatype js_error = SyntaxError | TypeError

fun parse_extreme :: "real option \<Rightarrow> extreme" where
  "parse_extreme (Some r) = Fin r"
| "parse_extreme None = Null"

text \<open>
  The loop of \<open>restore\<close>: reading \<open>saved.count\<close> of a \<open>null\<close> entry throws a
  \<open>TypeError\<close>; the entries before it have been stored by then.
\<close>

fun restore_entries ::
  "(string \<times> saved_value) list \<Rightarrow> BaselineManager \<Rightarrow> (js_error, BaselineManager) completion" where
  "restore_entries [] bm = Normal bm"
| "restore_entries ((name, SavedNull) # es) bm = Throw TypeError bm"
| "restore_entries ((name, SavedObject sv) # es) bm =
     restore_entries es
       (bm\<lparr>baselines := AList.update name
             \<lparr>bd_values = RingBuffer_new 500, bd_count = s_count sv, bd_mean = s_mean sv,
              bd_m2 = s_m2 sv, bd_min = parse_extreme (s_min sv),
              bd_max = parse_extreme (s_max sv)\<rparr> (baselines bm)\<rparr>)"

fun restore_try :: "json_text \<Rightarrow> BaselineManager \<Rightarrow> (js_error, BaselineManager) completion" where
  \<comment> \<open>the \<open>try\<close> block: \<open>JSON.parse\<close> throws, or \<open>Object.entries(null)\<close> throws, or the loop runs\<close>
  "restore_try Malformed bm = Throw SyntaxError bm"
| "restore_try JsonNull bm = Throw TypeError bm"
| "restore_try (JsonObject es) bm = restore_entries es bm"

definition restore :: "json_text \<Rightarrow> BaselineManager \<Rightarrow> BaselineManager" where
  \<comment> \<open>\<open>catch { }\<close> swallows the exception and keeps the state as the \<open>try\<close> block left it\<close>
  "restore json bm = state_of (restore_try json bm)"

text \<open>A sequence of \<open>record\<close> calls, first call first.\<close>

definition record_all :: "(string \<times> real) list \<Rightarrow> BaselineManager \<Rightarrow> BaselineManager" where
  "record_all calls bm = foldl (\<lambda>m (name, v). record_value name v m) bm calls"

text \<open>
  The record that \<open>record\<close> and \<open>isReady\<close> work on for a metric: the stored one, or
  the new one that \<open>record\<close> creates (\<open>data?.count ?? 0\<close> is its count).
\<close>

definition data_of :: "BaselineManager \<Rightarrow> string \<Rightarrow> BaselineData" where
  "data_of bm metricName =
     (case map_of (baselines bm) metricName of None \<Rightarrow> new_data | Some d \<Rightarrow> d)"

section \<open>BaselineManager over the extended numbers (src/unnamed/part_003)\<close>

text \<open>
  A second embedding of the same class, for the statements that depend on what a
  number can be besides a real: a JavaScript number is a finite value, \<open>Infinity\<close>,
  \<open>-Infinity\<close> or \<open>NaN\<close>. An operation on finite values whose exact result reaches
  \<open>2^1024 - 2^970\<close> in magnitude (the midpoint between \<open>Number.MAX_VALUE\<close> and \<open>2^1024\<close>)
  gives an infinity, as rounding to nearest does; below that the exact result stands
  for its rounding, so that rounding errors, underflow and the sign of zero are outside
  the embedding. The names carry an \<open>X\<close>, which keeps them apart from those of
  the first embedding.
\<close>

datatype number = Finite real | PlusInfinity | MinusInfinity | NotANumber

definition MAX_VALUE :: real where
  \<comment> \<open>\<open>Number.MAX_VALUE\<close>\<close>
  "MAX_VALUE = 2 ^ 1024 - 2 ^ 971"

definition overflow_threshold :: real where
  "overflow_threshold = 2 ^ 1024 - 2 ^ 970"

definition overflow :: "real \<Rightarrow> number" where
  "overflow r = (if overflow_threshold \<le> r then PlusInfinity
                 else if r \<le> - overflow_threshold then MinusInfinity
                 else Finite r)"

fun negate :: "number \<Rightarrow> number" where
  "negate (Finite a) = Finite (- a)"
| "negate PlusInfinity = MinusInfinity"
| "negate MinusInfinity = PlusInfinity"
| "negate NotANumber = NotANumber"

fun add :: "number \<Rightarrow> number \<Rightarrow> number" where
  "add (Finite a) (Finite b) = overflow (a + b)"
| "add (Finite a) PlusInfinity = PlusInfinity"
| "add (Finite a) MinusInfinity = MinusInfinity"
| "add PlusInfinity (Finite b) = PlusInfinity"
| "add PlusInfinity PlusInfinity = PlusInfinity"
| "add PlusInfinity MinusInfinity = NotANumber"
| "add MinusInfinity (Finite b) = MinusInfinity"
| "add MinusInfinity PlusInfinity = NotANumber"
| "add MinusInfinity MinusInfinity = MinusInfinity"
| "add NotANumber b = NotANumber"
| "add a NotANumber = NotANumber"

definition subtract :: "number \<Rightarrow> number \<Rightarrow> number" where
  "subtract a b = add a (negate b)"

text \<open>
  \<open>x++\<close> and \<open>x - 1\<close>. Adding or subtracting 1 never overflows a double (the doubles
  next to \<open>Number.MAX_VALUE\<close> are \<open>2^971\<close> apart), so there is no overflow case.
\<close>

fun increment :: "number \<Rightarrow> number" where
  "increment (Finite a) = Finite (a + 1)"
| "increment PlusInfinity = PlusInfinity"
| "increment MinusInfinity = MinusInfinity"
| "increment NotANumber = NotANumber"

fun decrement :: "number \<Rightarrow> number" where
  "decrement (Finite a) = Finite (a - 1)"
| "decrement PlusInfinity = PlusInfinity"
| "decrement MinusInfinity = MinusInfinity"
| "decrement NotANumber = NotANumber"

fun multiply :: "number \<Rightarrow> number \<Rightarrow> number" where
  "multiply (Finite a) (Finite b) = overflow (a * b)"
| "multiply (Finite a) PlusInfinity =
     (if a = 0 then NotANumber else if 0 < a then PlusInfinity else MinusInfinity)"
| "multiply (Finite a) MinusInfinity =
     (if a = 0 then NotANumber else if 0 < a then MinusInfinity else PlusInfinity)"
| "multiply PlusInfinity (Finite b) =
     (if b = 0 then NotANumber else if 0 < b then PlusInfinity else MinusInfinity)"
| "multiply MinusInfinity (Finite b) =
     (if b = 0 then NotANumber else if 0 < b then MinusInfinity else PlusInfinity)"
| "multiply PlusInfinity PlusInfinity = PlusInfinity"
| "multiply PlusInfinity MinusInfinity = MinusInfinity"
| "multiply MinusInfinity PlusInfinity = MinusInfinity"
| "multiply MinusInfinity MinusInfinity = PlusInfinity"
| "multiply NotANumber b = NotANumber"
| "multiply a NotANumber = NotANumber"

text \<open>
  Division. A finite value divided by zero is an infinity of the sign of the dividend
  (the zero being taken as \<open>+0\<close>), and \<open>0 / 0\<close> is \<open>NaN\<close>.
\<close>

fun divide_number :: "number \<Rightarrow> number \<Rightarrow> number" where
  "divide_number (Finite a) (Finite b) =
     (if b = 0 then (if a = 0 then NotANumber else if 0 < a then PlusInfinity else MinusInfinity)
      else overflow (a / b))"
| "divide_number (Finite a) PlusInfinity = Finite 0"
| "divide_number (Finite a) MinusInfinity = Finite 0"
| "divide_number PlusInfinity (Finite b) = (if 0 \<le> b then PlusInfinity else MinusInfinity)"
| "divide_number MinusInfinity (Finite b) = (if 0 \<le> b then MinusInfinity else PlusInfinity)"
| "divide_number PlusInfinity PlusInfinity = NotANumber"
| "divide_number PlusInfinity MinusInfinity = NotANumber"
| "divide_number MinusInfinity PlusInfinity = NotANumber"
| "divide_number MinusInfinity MinusInfinity = NotANumber"
| "divide_number NotANumber b = NotANumber"
| "divide_number a NotANumber = NotANumber"

fun sqrt_number :: "number \<Rightarrow> number" where
  \<comment> \<open>\<open>Math.sqrt\<close>\<close>
  "sqrt_number (Finite x) = (if x < 0 then NotANumber else Finite (sqrt x))"
| "sqrt_number PlusInfinity = PlusInfinity"
| "sqrt_number MinusInfinity = NotANumber"
| "sqrt_number NotANumber = NotANumber"

text \<open>The comparisons \<open><=\<close> and \<open><\<close>: false as soon as one side is \<open>NaN\<close>.\<close>

fun less_equal :: "number \<Rightarrow> number \<Rightarrow> bool" where
  "less_equal (Finite a) (Finite b) = (a \<le> b)"
| "less_equal (Finite a) PlusInfinity = True"
| "less_equal (Finite a) MinusInfinity = False"
| "less_equal PlusInfinity (Finite b) = False"
| "less_equal PlusInfinity PlusInfinity = True"
| "less_equal PlusInfinity MinusInfinity = False"
| "less_equal MinusInfinity (Finite b) = True"
| "less_equal MinusInfinity PlusInfinity = True"
| "less_equal MinusInfinity MinusInfinity = True"
| "less_equal NotANumber b = False"
| "less_equal a NotANumber = False"

definition less :: "number \<Rightarrow> number \<Rightarrow> bool" where
  "less a b = (less_equal a b \<and> \<not> less_equal b a)"

fun min_number :: "number \<Rightarrow> number \<Rightarrow> number" where
  \<comment> \<open>\<open>Math.min\<close> of two numbers\<close>
  "min_number NotANumber b = NotANumber"
| "min_number a NotANumber = NotANumber"
| "min_number a b = (if less_equal a b then a else b)"

fun max_number :: "number \<Rightarrow> number \<Rightarrow> number" where
  \<comment> \<open>\<open>Math.max\<close> of two numbers\<close>
  "max_number NotANumber b = NotANumber"
| "max_number a NotANumber = NotANumber"
| "max_number a b = (if less_equal a b then b else a)"

text \<open>
  The fields \<open>count\<close>, \<open>mean\<close>, \<open>m2\<close>, \<open>min\<close> and \<open>max\<close> of a record hold a number, or
  \<open>null\<close> once \<open>restore\<close> has read a \<open>null\<close> member. Arithmetic, comparison, \<open>Math.min\<close>
  and \<open>Math.max\<close> convert \<open>null\<close> to 0, and so does \<open>count ?? 0\<close>.
\<close>

datatype field = NullValue | NumberValue number

fun ToNumber :: "field \<Rightarrow> number" where
  "ToNumber NullValue = Finite 0"
| "ToNumber (NumberValue x) = x"

record BaselineDataX =
  xd_values :: "real RingBuffer"
  xd_count :: field
  xd_mean :: field
  xd_m2 :: field
  xd_min :: field
  xd_max :: field

record BaselineManagerX =
  xbaselines :: "(string \<times> BaselineDataX) list"
  xminSamples :: number

record snapshotX =
  xs_mean :: field
  xs_stdDev :: number
  xs_variance :: number
  xs_min :: field
  xs_max :: field
  xs_p50 :: real
  xs_p90 :: real
  xs_p95 :: real
  xs_p99 :: real
  xs_sampleCount :: field

definition BaselineManagerX_new :: "real \<Rightarrow> real \<Rightarrow> BaselineManagerX" where
  "BaselineManagerX_new learningPeriodSeconds sampleRateHz =
     \<lparr>xbaselines = [],
      xminSamples = multiply (Finite learningPeriodSeconds) (Finite sampleRateHz)\<rparr>"

definition new_dataX :: BaselineDataX where
  \<comment> \<open>the object literal of \<open>record\<close>, lines 25 to 32\<close>
  "new_dataX = \<lparr>xd_values = RingBuffer_new 500, xd_count = NumberValue (Finite 0),
                 xd_mean = NumberValue (Finite 0), xd_m2 = NumberValue (Finite 0),
                 xd_min = NumberValue PlusInfinity, xd_max = NumberValue MinusInfinity\<rparr>"

text \<open>\<open>record(metricName, value)\<close>, the value being a finite number.\<close>

definition record_valueX :: "string \<Rightarrow> real \<Rightarrow> BaselineManagerX \<Rightarrow> BaselineManagerX" where
  "record_valueX metricName val bm =
     (let data0 = (case map_of (xbaselines bm) metricName of None \<Rightarrow> new_dataX | Some d \<Rightarrow> d);
          data1 = data0\<lparr>xd_values := push val (xd_values data0)\<rparr>;
          data2 = data1\<lparr>xd_count := NumberValue (increment (ToNumber (xd_count data1)))\<rparr>;
          delta = subtract (Finite val) (ToNumber (xd_mean data2));
          data3 = data2\<lparr>xd_mean := NumberValue (add (ToNumber (xd_mean data2))
                                        (divide_number delta (ToNumber (xd_count data2))))\<rparr>;
          delta2 = subtract (Finite val) (ToNumber (xd_mean data3));
          data4 = data3\<lparr>xd_m2 := NumberValue (add (ToNumber (xd_m2 data3)) (multiply delta delta2))\<rparr>;
          data5 = data4\<lparr>xd_min := NumberValue (min_number (ToNumber (xd_min data4)) (Finite val))\<rparr>;
          data6 = data5\<lparr>xd_max := NumberValue (max_number (ToNumber (xd_max data5)) (Finite val))\<rparr>
      in bm\<lparr>xbaselines := AList.update metricName data6 (xbaselines bm)\<rparr>)"

definition isReadyX :: "BaselineManagerX \<Rightarrow> string \<Rightarrow> bool" where
  \<comment> \<open>\<open>(data?.count ?? 0) >= this._minSamples\<close>\<close>
  "isReadyX bm metricName =
     less_equal (xminSamples bm)
       (case map_of (xbaselines bm) metricName of None \<Rightarrow> Finite 0 | Some d \<Rightarrow> ToNumber (xd_count d))"

definition getBaselineX :: "BaselineManagerX \<Rightarrow> string \<Rightarrow> snapshotX option" where
  "getBaselineX bm metricName =
     (case map_of (xbaselines bm) metricName of
        None \<Rightarrow> None
      | Some data \<Rightarrow>
          if \<not> isReadyX bm metricName then None
          else
            let variance = (if less (Finite 1) (ToNumber (xd_count data))
                            then divide_number (ToNumber (xd_m2 data)) (decrement (ToNumber (xd_count data)))
                            else Finite 0);
                stdDev = sqrt_number variance;
                sorted_arr = js_sort (toArray (xd_values data))
            in Some \<lparr>xs_mean = xd_mean data, xs_stdDev = stdDev, xs_variance = variance,
                      xs_min = xd_min data, xs_max = xd_max data,
                      xs_p50 = percentile sorted_arr 0.5, xs_p90 = percentile sorted_arr 0.9,
                      xs_p95 = percentile sorted_arr 0.95, xs_p99 = percentile sorted_arr 0.99,
                      xs_sampleCount = xd_count data\<rparr>)"


subsection \<open>serialize and restore\<close>













text \<open>A sequence of \<open>record\<close> calls, first call first.\<close>

definition record_allX :: "(string \<times> real) list \<Rightarrow> BaselineManagerX \<Rightarrow> BaselineManagerX" where
  "record_allX calls bm = foldl (\<lambda>m (name, v). record_valueX name v m) bm calls"




text \<open>
  The record of a metric as \<open>record\<close> sees it: the stored one, or the initial one where
  the metric has none.
\<close>

definition data_ofX :: "BaselineManagerX \<Rightarrow> string \<Rightarrow> BaselineDataX" where
  "data_ofX bm metricName =
     (case map_of (xbaselines bm) metricName of None \<Rightarrow> new_dataX | Some d \<Rightarrow> d)"

text \<open>A number that is not negative: a finite one from 0, or \<open>Infinity\<close>.\<close>

fun nonnegative :: "number \<Rightarrow> bool" where
  "nonnegative (Finite r) = (0 \<le> r)"
| "nonnegative PlusInfinity = True"
| "nonnegative MinusInfinity = False"
| "nonnegative NotANumber = False"



section \<open>Detection strategies\<close>

text \<open>
  Of a metric sample the fields that the strategies do not read (tags, metadata,
  timestamp) are left out, and of an anomaly event the \<open>message\<close> (built with
  \<open>toFixed\<close>) and the \<open>timestamp\<close> (\<open>Date.now()\<close>).

  Where the standard deviation of the snapshot is \<open>NaN\<close>, it is not \<open>=== 0\<close>, every
  number computed from it is \<open>NaN\<close> and every comparison with it is false: no early
  return is taken, \<open>isCritical\<close> is false and the score is \<open>NaN\<close>.

  The score divides by twice the threshold. That is 0 only for the threshold 0, and
  then the dividend, being above the threshold, is positive: the quotient is
  \<open>Infinity\<close> and \<open>Math.min(1, Infinity)\<close> is 1.
\<close>

record metric =
  m_name :: string
  m_value :: real
  m_unit :: string

datatype anomaly_context =
    ZScoreContext num real real real  \<comment> \<open>zScore, threshold, p95, p99\<close>
  | EMAContext real real num          \<comment> \<open>ema, alpha, normalizedDeviation\<close>

record anomaly =
  a_type :: string
  a_severity :: string
  a_metric :: metric
  a_baseline :: "real \<times> num"  \<comment> \<open>mean, stdDev\<close>
  a_score :: num
  a_context :: anomaly_context

subsection \<open>ZScoreStrategy (src/anamolies/strategies/ZScoreStrategy.js)\<close>




subsection \<open>EMAStrategy (src/unnamed/part_002)\<close>

record EMAStrategy =
  ema_name :: string
  alpha :: real
  deviationThreshold :: real
  emaValues :: "string \<Rightarrow> real option"

definition EMAStrategy_new :: "real \<Rightarrow> real \<Rightarrow> EMAStrategy" where
  "EMAStrategy_new a t =
     \<lparr>ema_name = ''ema'', alpha = a, deviationThreshold = t, emaValues = Map.empty\<rparr>"

text \<open>\<open>detect\<close> returns the verdict together with the strategy object it has updated.\<close>

definition EMA_detect :: "metric \<Rightarrow> BaselineManager \<Rightarrow> EMAStrategy \<Rightarrow> anomaly option \<times> EMAStrategy" where
  "EMA_detect metric baseline this =
     (case getBaseline baseline (m_name metric) of
        None \<Rightarrow> (None, this)
      | Some base \<Rightarrow>
          if bs_stdDev base = Num 0 then (None, this)
          else
            let prevEma = (case emaValues this (m_name metric) of
                             None \<Rightarrow> bs_mean base | Some e \<Rightarrow> e);
                newEma = alpha this * m_value metric + (1 - alpha this) * prevEma;
                this1 = this\<lparr>emaValues := (emaValues this)(m_name metric \<mapsto> newEma)\<rparr>;
                deviation = \<bar>m_value metric - newEma\<bar>
            in (case bs_stdDev base of
                  NaN \<Rightarrow>
                    (Some \<lparr>a_type = ''drift'', a_severity = ''warning'', a_metric = metric,
                           a_baseline = (bs_mean base, NaN), a_score = NaN,
                           a_context = EMAContext newEma (alpha this) NaN\<rparr>, this1)
                | Num stdDev \<Rightarrow>
                    let normalizedDeviation = deviation / stdDev
                    in if normalizedDeviation \<le> deviationThreshold this then (None, this1)
                       else
                         let isCritical = (normalizedDeviation > deviationThreshold this * 2)
                         in (Some \<lparr>a_type = ''drift'',
                                    a_severity = (if isCritical then ''critical'' else ''warning''),
                                    a_metric = metric,
                                    a_baseline = (bs_mean base, Num stdDev),
                                    a_score = Num (if deviationThreshold this * 2 = 0 then 1
                                                   else min 1 (normalizedDeviation /
                                                               (deviationThreshold this * 2))),
                                    a_context = EMAContext newEma (alpha this)
                                                  (Num normalizedDeviation)\<rparr>, this1)))"

section \<open>EventBus (src/unnamed/part_000)\<close>

text \<open>
  A listener is a function object: it is known by its identity (a number) and what a
  call of it does is given by a table \<open>run\<close>, from the identity and the event to a
  transformer of the world outside the bus that completes normally or throws. Listeners
  that subscribe, unsubscribe or emit on the bus they are called from are outside
  this model. A \<open>Set\<close> is the list of its elements in insertion order.

  The clock readings, the page address and the session id are read from the
  environment. \<open>_getSessionId\<close> lies beyond the end of the source text, so the
  \<open>_sessionId\<close> field it manages is not part of the bus record. \<open>once\<close>, which wraps
  its listener in a new function object, is not modelled.
\<close>

record 'p event =
  e_type :: string
  e_timestamp :: real
  e_wallTime :: real
  e_source :: string
  e_payload :: 'p
  e_sessionId :: string
  e_pageUrl :: string

record environment =
  performance_now :: real
  Date_now :: real
  getSessionId :: string
  location_href :: string

record 'p EventBus =
  eb_listeners :: "(string \<times> nat list) list"
  eb_history :: "'p event list"
  eb_maxHistory :: nat

definition EventBus_new :: "'p EventBus" where
  "EventBus_new = \<lparr>eb_listeners = [], eb_history = [], eb_maxHistory = 1000\<rparr>"

definition Set_add :: "nat \<Rightarrow> nat list \<Rightarrow> nat list" where
  "Set_add l ls = (if l \<in> set ls then ls else ls @ [l])"

definition Set_delete :: "nat \<Rightarrow> nat list \<Rightarrow> nat list" where
  "Set_delete l ls = removeAll l ls"

definition on :: "string \<Rightarrow> nat \<Rightarrow> 'p EventBus \<Rightarrow> 'p EventBus" where
  "on type listener bus =
     (let ls = (case map_of (eb_listeners bus) type of None \<Rightarrow> [] | Some l \<Rightarrow> l)
      in bus\<lparr>eb_listeners := AList.update type (Set_add listener ls) (eb_listeners bus)\<rparr>)"

definition unsubscribe :: "string \<Rightarrow> nat \<Rightarrow> 'p EventBus \<Rightarrow> 'p EventBus" where
  \<comment> \<open>the function that \<open>on\<close> returns\<close>
  "unsubscribe type listener bus =
     (case map_of (eb_listeners bus) type of
        None \<Rightarrow> bus
      | Some ls \<Rightarrow> bus\<lparr>eb_listeners := AList.update type (Set_delete listener ls) (eb_listeners bus)\<rparr>)"

text \<open>
  Modelled from the spec: the source text ends inside the \<open>console.warn\<close> call of the
  \<open>catch\<close> block of \<open>emit\<close>. The rest of that block is taken to do what the specification
  says, log the error and go on with the next listener. The console is the list of the
  warnings, each the event type and the error caught.
\<close>

fun dispatch ::
  "(nat \<Rightarrow> 'p event \<Rightarrow> 'w \<Rightarrow> ('e, 'w) completion) \<Rightarrow> nat list \<Rightarrow> 'p event \<Rightarrow>
   'w \<times> (string \<times> 'e) list \<Rightarrow> ('e, 'w \<times> (string \<times> 'e) list) completion" where
  "dispatch run [] ev (w, console) = Normal (w, console)"
| "dispatch run (listener # ls) ev (w, console) =
     (case run listener ev w of
        Normal w' \<Rightarrow> dispatch run ls ev (w', console)
      | Throw e w' \<Rightarrow> dispatch run ls ev (w', console @ [(e_type ev, e)]))"

definition emit ::
  "(nat \<Rightarrow> 'p event \<Rightarrow> 'w \<Rightarrow> ('e, 'w) completion) \<Rightarrow> environment \<Rightarrow>
   string \<Rightarrow> string \<Rightarrow> 'p \<Rightarrow> 'p EventBus \<times> 'w \<times> (string \<times> 'e) list \<Rightarrow>
   ('e, 'p EventBus \<times> 'w \<times> (string \<times> 'e) list) completion" where
  "emit run env type source payload st =
     (case st of (bus, w, console) \<Rightarrow>
        let ev = \<lparr>e_type = type, e_timestamp = performance_now env, e_wallTime = Date_now env,
                   e_source = source, e_payload = payload, e_sessionId = getSessionId env,
                   e_pageUrl = location_href env\<rparr>;
            history1 = eb_history bus @ [ev];
            history2 = (if length history1 > eb_maxHistory bus then tl history1 else history1);
            bus1 = bus\<lparr>eb_history := history2\<rparr>
        in (case map_of (eb_listeners bus1) type of
              None \<Rightarrow> Normal (bus1, w, console)
            | Some listeners \<Rightarrow>
                (case dispatch run listeners ev (w, console) of
                   Normal (w', console') \<Rightarrow> Normal (bus1, w', console')
                 | Throw e (w', console') \<Rightarrow> Throw e (bus1, w', console'))))"

section \<open>Auxiliary notions\<close>

text \<open>
  Calling the listeners of a list one after the other, each on the world that the one
  before it left behind, whether it returned or threw.
\<close>

definition deliver :: "(nat \<Rightarrow> 'p event \<Rightarrow> 'w \<Rightarrow> ('e, 'w) completion) \<Rightarrow> nat list \<Rightarrow> 'p event \<Rightarrow> 'w \<Rightarrow> 'w" where
  "deliver run ls ev w = foldl (\<lambda>w' l. state_of (run l ev w')) w ls"

section \<open>Properties of the ring buffer\<close>

lemma push_all_snoc: "push_all (xs @ [x]) rb = push x (push_all xs rb)"
  by (simp add: push_all_def)

lemma push_all_Nil: "push_all [] rb = rb"
  by (simp add: push_all_def)

lemma push_all_inv:
  assumes "0 < C"
  shows "rb_capacity (push_all xs (RingBuffer_new C)) = C
       \<and> length (rb_buffer (push_all xs (RingBuffer_new C))) = C
       \<and> rb_head (push_all xs (RingBuffer_new C)) = length xs mod C
       \<and> rb_count (push_all xs (RingBuffer_new C)) = min (length xs) C
       \<and> (\<forall>j. length xs - C \<le> j \<and> j < length xs \<longrightarrow>
             rb_buffer (push_all xs (RingBuffer_new C)) ! (j mod C) = Some (xs ! j))"
proof (induction xs rule: rev_induct)
  case Nil
  then show ?case using assms by (simp add: push_all_Nil RingBuffer_new_def)
next
  case (snoc x xs)
  let ?rb = "push_all xs (RingBuffer_new C)"
  let ?n = "length xs"
  from snoc have cap: "rb_capacity ?rb = C" and len: "length (rb_buffer ?rb) = C"
    and hd: "rb_head ?rb = ?n mod C" and cnt: "rb_count ?rb = min ?n C"
    and old: "\<And>j. ?n - C \<le> j \<Longrightarrow> j < ?n \<Longrightarrow> rb_buffer ?rb ! (j mod C) = Some (xs ! j)"
    by auto
  have buf: "rb_buffer (push x ?rb) = (rb_buffer ?rb)[?n mod C := Some x]"
    by (simp add: push_def Let_def hd)
  have c1: "rb_capacity (push x ?rb) = C"
    by (simp add: push_def Let_def cap)
  have c2: "length (rb_buffer (push x ?rb)) = C"
    by (simp add: buf len)
  have c3: "rb_head (push x ?rb) = Suc ?n mod C"
    by (simp add: push_def Let_def hd cap mod_Suc_eq)
  have c4: "rb_count (push x ?rb) = min (Suc ?n) C"
    by (auto simp add: push_def Let_def cnt cap)
  have c5: "rb_buffer (push x ?rb) ! (j mod C) = Some ((xs @ [x]) ! j)"
    if lo: "Suc ?n - C \<le> j" and hi: "j < Suc ?n" for j
  proof (cases "j = ?n")
    case True
    then show ?thesis using assms by (simp add: buf len)
  next
    case False
    with hi have jn: "j < ?n" by simp
    have pos: "0 < ?n - j" and small: "?n - j < C" using jn lo by auto
    have ne: "j mod C \<noteq> ?n mod C"
    proof
      assume "j mod C = ?n mod C"
      then have "C dvd (?n - j)" using jn by (metis mod_eq_dvd_iff_nat less_imp_le)
      then show False using pos small by (auto dest: dvd_imp_le)
    qed
    have "rb_buffer ?rb ! (j mod C) = Some (xs ! j)" using old jn lo by auto
    then show ?thesis using ne jn by (simp add: buf nth_append)
  qed
  show ?case using c1 c2 c3 c4 c5 by (simp add: push_all_snoc)
qed

lemma toArray_push_all_pos:
  assumes "0 < C"
  shows "toArray (push_all xs (RingBuffer_new C)) = map Some (drop (length xs - C) xs)"
proof -
  let ?rb = "push_all xs (RingBuffer_new C)"
  let ?n = "length xs"
  from push_all_inv[OF assms, of xs]
  have cap: "rb_capacity ?rb = C" and len: "length (rb_buffer ?rb) = C"
    and hd: "rb_head ?rb = ?n mod C" and cnt: "rb_count ?rb = min ?n C"
    and old: "\<And>j. ?n - C \<le> j \<Longrightarrow> j < ?n \<Longrightarrow> rb_buffer ?rb ! (j mod C) = Some (xs ! j)"
    by auto
  show ?thesis
  proof (cases "?n = 0")
    case True
    then have "rb_count ?rb = 0" unfolding cnt by simp
    with True show ?thesis by (simp add: toArray_def)
  next
    case False
    then have cpos: "rb_count ?rb \<noteq> 0" using assms by (simp add: cnt)
    define start where "start = (if rb_count ?rb < rb_capacity ?rb then 0 else rb_head ?rb)"
    have ta: "toArray ?rb = map (\<lambda>i. js_index (rb_buffer ?rb) ((start + i) mod C)) [0..<min ?n C]"
      unfolding toArray_def start_def using cpos by (simp only: if_False Let_def cap cnt)
    have idx: "(start + i) mod C = (?n - C + i) mod C" for i
    proof (cases "?n < C")
      case True
      then show ?thesis by (simp add: start_def cnt cap)
    next
      case False
      then have "(?n - C + i) + C = ?n + i" by simp
      then have "(?n + i) mod C = (?n - C + i) mod C" by (metis mod_add_self2)
      with False show ?thesis by (simp add: start_def cnt cap hd mod_add_left_eq)
    qed
    show ?thesis
    proof (rule nth_equalityI)
      show "length (toArray ?rb) = length (map Some (drop (?n - C) xs))"
        by (auto simp add: ta)
    next
      fix i assume "i < length (toArray ?rb)"
      then have i: "i < min ?n C" by (simp add: ta)
      have "rb_buffer ?rb ! ((?n - C + i) mod C) = Some (xs ! (?n - C + i))"
        using old[of "?n - C + i"] i by auto
      moreover have "i < length (drop (?n - C) xs)" using i by auto
      ultimately show "toArray ?rb ! i = map Some (drop (?n - C) xs) ! i"
        using i assms by (simp add: ta idx js_index_def len)
    qed
  qed
qed

lemma push_all_zero:
  "rb_capacity (push_all xs (RingBuffer_new 0)) = 0 \<and> rb_count (push_all xs (RingBuffer_new 0)) = 0"
  by (induction xs rule: rev_induct)
     (simp_all add: push_all_Nil push_all_snoc RingBuffer_new_def push_def Let_def)

lemma toArray_push_all:
  "toArray (push_all xs (RingBuffer_new C)) = map Some (drop (length xs - C) xs)"
proof (cases "C = 0")
  case True
  then show ?thesis using push_all_zero[of xs] by (simp add: toArray_def)
next
  case False
  then show ?thesis using toArray_push_all_pos[of C xs] by simp
qed

lemma rb_length_push_all:
  "rb_length (push_all xs (RingBuffer_new C)) = min (length xs) C"
proof (cases "C = 0")
  case True
  then show ?thesis using push_all_zero[of xs] by (simp add: rb_length_def)
next
  case False
  then show ?thesis using push_all_inv[of C xs] by (simp add: rb_length_def)
qed

lemma latest_push_all:
  assumes "0 < C"
  shows "latest (push_all (xs @ [x]) (RingBuffer_new C)) = Some x"
proof -
  let ?rb = "push_all (xs @ [x]) (RingBuffer_new C)"
  let ?n = "length xs"
  from push_all_inv[OF assms, of "xs @ [x]"]
  have cap: "rb_capacity ?rb = C" and len: "length (rb_buffer ?rb) = C"
    and hd: "rb_head ?rb = Suc ?n mod C" and cnt: "rb_count ?rb = min (Suc ?n) C"
    and old: "\<And>j. Suc ?n - C \<le> j \<Longrightarrow> j < Suc ?n \<Longrightarrow> rb_buffer ?rb ! (j mod C) = Some ((xs @ [x]) ! j)"
    by auto
  have "(int (Suc ?n mod C) - 1 + int C) mod int C = (int (Suc ?n) - 1 + int C) mod int C"
    by (simp add: zmod_int mod_diff_left_eq mod_add_left_eq)
  also have "\<dots> = int ?n mod int C" by simp
  finally have idx: "nat ((int (rb_head ?rb) - 1 + int (rb_capacity ?rb)) mod int (rb_capacity ?rb)) = ?n mod C"
    by (simp add: hd cap zmod_int[symmetric] del: of_nat_mod of_nat_Suc)
  have "rb_buffer ?rb ! (?n mod C) = Some x"
    using old[of ?n] assms by auto
  moreover have "rb_count ?rb \<noteq> 0" using assms by (simp add: cnt)
  ultimately show ?thesis
    using assms by (simp only: latest_def idx js_index_def len if_False) simp
qed

text \<open>
  C4. For a ring buffer of capacity \<open>C\<close> into which \<open>C + k\<close> items have been pushed,
  \<open>toArray\<close> returns exactly the last \<open>C\<close> items pushed, oldest first and with no
  hole among them, and after every prefix of the pushes \<open>length\<close> is at most \<open>C\<close>.
\<close>

theorem ring_buffer_keeps_last_capacity_items:
  assumes "length xs = C + k"
  shows "toArray (push_all xs (RingBuffer_new C)) = map Some (drop k xs)
       \<and> rb_length (push_all (take n xs) (RingBuffer_new C)) \<le> C"
proof
  from assms have "length xs - C = k" by simp
  then show "toArray (push_all xs (RingBuffer_new C)) = map Some (drop k xs)"
    using toArray_push_all[of xs C] by simp
  show "rb_length (push_all (take n xs) (RingBuffer_new C)) \<le> C"
    by (simp add: rb_length_push_all)
qed

theorem ring_buffer_keeps_last_capacity_items_witness:
  "length [1, 2, 3, 4, 5 :: nat] = 3 + 2
   \<and> toArray (push_all [1, 2, 3, 4, 5 :: nat] (RingBuffer_new 3)) = [Some 3, Some 4, Some 5]
   \<and> rb_length (push_all (take 4 [1, 2, 3, 4, 5 :: nat]) (RingBuffer_new 3)) \<le> 3"
  using ring_buffer_keeps_last_capacity_items[of "[1, 2, 3, 4, 5 :: nat]" 3 2 4]
  by simp

section \<open>Properties of the baseline manager\<close>

lemma record_value_minSamples: "minSamples (record_value n v bm) = minSamples bm"
  by (simp add: record_value_def Let_def)

lemma record_value_other:
  "n' \<noteq> n \<Longrightarrow> map_of (baselines (record_value n v bm)) n' = map_of (baselines bm) n'"
  by (simp add: record_value_def Let_def update_conv')

lemma record_value_same:
  "map_of (baselines (record_value n v bm)) n =
     Some \<lparr>bd_values = push v (bd_values (data_of bm n)),
           bd_count = bd_count (data_of bm n) + 1,
           bd_mean = bd_mean (data_of bm n) + (v - bd_mean (data_of bm n)) / real (bd_count (data_of bm n) + 1),
           bd_m2 = bd_m2 (data_of bm n) + (v - bd_mean (data_of bm n)) *
                     (v - (bd_mean (data_of bm n) + (v - bd_mean (data_of bm n)) / real (bd_count (data_of bm n) + 1))),
           bd_min = Math_min (bd_min (data_of bm n)) v,
           bd_max = Math_max (bd_max (data_of bm n)) v\<rparr>"
  by (simp add: record_value_def Let_def update_conv' data_of_def)

lemma data_of_record_value_other: "n' \<noteq> n \<Longrightarrow> data_of (record_value n v bm) n' = data_of bm n'"
  by (simp add: data_of_def record_value_other)

lemma count_record_value: "bd_count (data_of (record_value n v bm) n) = bd_count (data_of bm n) + 1"
  by (simp add: data_of_def[of "record_value n v bm"] record_value_same)

lemma mean_record_value:
  "bd_mean (data_of (record_value n v bm) n) =
     bd_mean (data_of bm n) + (v - bd_mean (data_of bm n)) / real (bd_count (data_of bm n) + 1)"
  by (simp add: data_of_def[of "record_value n v bm"] record_value_same)

lemma m2_record_value:
  "bd_m2 (data_of (record_value n v bm) n) =
     bd_m2 (data_of bm n) + (v - bd_mean (data_of bm n)) * (v - bd_mean (data_of (record_value n v bm) n))"
  by (simp add: data_of_def[of "record_value n v bm"] record_value_same)

lemma record_all_Nil: "record_all [] bm = bm"
  by (simp add: record_all_def)

lemma record_all_Cons: "record_all ((n, v) # cs) bm = record_all cs (record_value n v bm)"
  by (simp add: record_all_def)

lemma record_all_snoc: "record_all (cs @ [(n, v)]) bm = record_value n v (record_all cs bm)"
  by (simp add: record_all_def)

lemma record_all_minSamples: "minSamples (record_all cs bm) = minSamples bm"
  by (induction cs rule: rev_induct) (auto simp: record_all_Nil record_all_snoc record_value_minSamples)

lemma data_of_new: "data_of (BaselineManager_new L R) n = new_data"
  by (simp add: data_of_def BaselineManager_new_def)

lemma count_record_all:
  "bd_count (data_of (record_all cs (BaselineManager_new L R)) n) = length (filter (\<lambda>c. fst c = n) cs)"
proof (induction cs rule: rev_induct)
  case Nil
  then show ?case by (simp add: record_all_Nil data_of_new new_data_def)
next
  case (snoc c cs)
  obtain n' v where c: "c = (n', v)" by (cases c)
  show ?case
  proof (cases "n' = n")
    case True
    then show ?thesis using snoc by (simp add: c record_all_snoc count_record_value)
  next
    case False
    then show ?thesis using snoc by (simp add: c record_all_snoc data_of_record_value_other)
  qed
qed

lemma present_record_all:
  "(map_of (baselines (record_all cs (BaselineManager_new L R))) n = None) = (filter (\<lambda>c. fst c = n) cs = [])"
proof (induction cs rule: rev_induct)
  case Nil
  then show ?case by (simp add: record_all_Nil BaselineManager_new_def)
next
  case (snoc c cs)
  obtain n' v where c: "c = (n', v)" by (cases c)
  show ?case
  proof (cases "n' = n")
    case True
    then show ?thesis by (simp add: c record_all_snoc record_value_same)
  next
    case False
    then show ?thesis using snoc by (simp add: c record_all_snoc record_value_other)
  qed
qed

lemma isReady_data_of: "isReady bm n = (minSamples bm \<le> real (bd_count (data_of bm n)))"
  by (simp add: isReady_def data_of_def new_data_def split: option.splits)

lemma minSamples_new: "minSamples (BaselineManager_new L R) = L * R"
  by (simp add: BaselineManager_new_def)

lemma isReady_record_all:
  "isReady (record_all cs (BaselineManager_new L R)) n = (L * R \<le> real (length (filter (\<lambda>c. fst c = n) cs)))"
  by (simp add: isReady_data_of count_record_all record_all_minSamples minSamples_new)

lemma getBaseline_None:
  "(getBaseline bm n = None) = (map_of (baselines bm) n = None \<or> \<not> isReady bm n)"
  by (simp add: getBaseline_def Let_def split: option.splits)

lemma getBaseline_Some:
  assumes "map_of (baselines bm) n = Some d" and "isReady bm n"
  shows "getBaseline bm n =
     Some \<lparr>bs_mean = bd_mean d,
           bs_stdDev = Math_sqrt (if bd_count d > 1 then bd_m2 d / (real (bd_count d) - 1) else 0),
           bs_variance = (if bd_count d > 1 then bd_m2 d / (real (bd_count d) - 1) else 0),
           bs_min = bd_min d, bs_max = bd_max d,
           bs_p50 = percentile (js_sort (toArray (bd_values d))) 0.5,
           bs_p90 = percentile (js_sort (toArray (bd_values d))) 0.9,
           bs_p95 = percentile (js_sort (toArray (bd_values d))) 0.95,
           bs_p99 = percentile (js_sort (toArray (bd_values d))) 0.99,
           bs_sampleCount = bd_count d\<rparr>"
  using assms by (simp add: getBaseline_def Let_def)

lemma data_of_present: "map_of (baselines bm) n = Some d \<Longrightarrow> data_of bm n = d"
  by (simp add: data_of_def)

lemma getBaseline_fields:
  assumes "getBaseline bm n = Some s"
  shows "bs_mean s = bd_mean (data_of bm n)"
    and "bs_sampleCount s = bd_count (data_of bm n)"
    and "bs_variance s = (if bd_count (data_of bm n) > 1
                          then bd_m2 (data_of bm n) / (real (bd_count (data_of bm n)) - 1) else 0)"
    and "bs_stdDev s = Math_sqrt (bs_variance s)"
    and "bs_min s = bd_min (data_of bm n)"
    and "bs_max s = bd_max (data_of bm n)"
  using assms
  by (auto simp add: getBaseline_def Let_def data_of_def split: option.splits if_splits)

text \<open>
  C1. \<open>record\<close> applies Welford's update to the record of the metric: the count goes up
  by one, \<open>delta = value - mean\<close>, the mean grows by \<open>delta / count\<close> (the new count) and
  the sum of squared deviations by \<open>delta * (value - mean)\<close> (the new mean). Recording
  1, 2, 3, 4, 5 for one metric in a new manager that is ready after five samples gives a
  snapshot with mean 3 and sample variance 2.5.
\<close>

theorem welford_update:
  assumes "L * R \<le> 5"
  shows "bd_count (data_of (record_value n v bm) n) = bd_count (data_of bm n) + 1
       \<and> bd_mean (data_of (record_value n v bm) n) =
           bd_mean (data_of bm n) +
             (v - bd_mean (data_of bm n)) / real (bd_count (data_of (record_value n v bm) n))
       \<and> bd_m2 (data_of (record_value n v bm) n) =
           bd_m2 (data_of bm n) +
             (v - bd_mean (data_of bm n)) * (v - bd_mean (data_of (record_value n v bm) n))
       \<and> (\<exists>s. getBaseline (record_all [(m, 1), (m, 2), (m, 3), (m, 4), (m, 5)]
                              (BaselineManager_new L R)) m = Some s
              \<and> bs_mean s = 3 \<and> bs_variance s = 5 / 2 \<and> bs_stdDev s = Num (sqrt (5 / 2))
              \<and> bs_sampleCount s = 5)"
proof -
  let ?bm = "record_all [(m, 1), (m, 2), (m, 3), (m, 4), (m, 5)] (BaselineManager_new L R)"
  have cnt: "bd_count (data_of ?bm m) = 5"
    by (simp add: count_record_all)
  have mean: "bd_mean (data_of ?bm m) = 3"
    by (simp add: record_all_Cons record_all_Nil mean_record_value count_record_value
        data_of_new new_data_def)
  have m2: "bd_m2 (data_of ?bm m) = 10"
    by (simp add: record_all_Cons record_all_Nil m2_record_value mean_record_value
        count_record_value data_of_new new_data_def)
  have "getBaseline ?bm m \<noteq> None"
    using assms by (simp add: getBaseline_None present_record_all isReady_record_all)
  then obtain s where s: "getBaseline ?bm m = Some s" by auto
  have "bs_mean s = 3" "bs_variance s = 5 / 2" "bs_sampleCount s = 5"
    using getBaseline_fields(1,2,3)[OF s] by (simp_all add: cnt mean m2)
  moreover from this have "bs_stdDev s = Num (sqrt (5 / 2))"
    using getBaseline_fields(4)[OF s] by (simp add: Math_sqrt_def)
  ultimately show ?thesis
    using s by (simp add: count_record_value mean_record_value m2_record_value)
qed

theorem welford_update_witness:
  "(5::real) * 1 \<le> 5
   \<and> bd_mean (data_of (record_value ''fps'' 4 (record_value ''fps'' 2 (BaselineManager_new 5 1))) ''fps'') = 3
   \<and> bd_m2 (data_of (record_value ''fps'' 4 (record_value ''fps'' 2 (BaselineManager_new 5 1))) ''fps'') = 2
   \<and> (\<exists>s. getBaseline (record_all [(''fps'', 1), (''fps'', 2), (''fps'', 3), (''fps'', 4), (''fps'', 5)]
                              (BaselineManager_new 5 1)) ''fps'' = Some s
              \<and> bs_mean s = 3 \<and> bs_variance s = 5 / 2)"
proof -
  have h: "(5::real) * 1 \<le> 5" by simp
  have base: "bd_count (data_of (record_value ''fps'' 2 (BaselineManager_new 5 1)) ''fps'') = 1"
    "bd_mean (data_of (record_value ''fps'' 2 (BaselineManager_new 5 1)) ''fps'') = 2"
    "bd_m2 (data_of (record_value ''fps'' 2 (BaselineManager_new 5 1)) ''fps'') = 0"
    by (simp_all add: data_of_def[of "record_value _ _ _"] record_value_same data_of_new new_data_def)
  from welford_update[OF h, of "''fps''" 4 "record_value ''fps'' 2 (BaselineManager_new 5 1)" "''fps''"]
  show ?thesis by (auto simp add: base)
qed

text \<open>
  C5. In a manager built with a learning period of 30 seconds at 1 Hz, \<open>getBaseline\<close> of a
  metric is \<open>null\<close> exactly while fewer than 30 values have been recorded for it; in
  general a metric is ready exactly when its count has reached
  \<open>learningPeriodSeconds * sampleRateHz\<close>.
\<close>

theorem readiness_gating:
  "(getBaseline (record_all cs (BaselineManager_new 30 1)) n = None) = (length (filter (\<lambda>c. fst c = n) cs) < 30)
   \<and> isReady (record_all cs (BaselineManager_new L R)) n = (L * R \<le> real (length (filter (\<lambda>c. fst c = n) cs)))"
  by (auto simp add: getBaseline_None present_record_all isReady_record_all)

section \<open>Properties of the detection strategies\<close>







lemma sqrt_100: "sqrt 100 = 10"
  by (rule real_sqrt_unique) simp_all

lemma example_baseline:
  "\<exists>base. getBaseline (record_all [(n, 90), (n, 100), (n, 110)] (BaselineManager_new 3 1)) n = Some base
      \<and> bs_mean base = 100 \<and> bs_stdDev base = Num 10"
proof -
  let ?bm = "record_all [(n, 90), (n, 100), (n, 110)] (BaselineManager_new 3 1)"
  have cnt: "bd_count (data_of ?bm n) = 3"
    by (simp add: count_record_all)
  have mean: "bd_mean (data_of ?bm n) = 100"
    by (simp add: record_all_Cons record_all_Nil mean_record_value count_record_value
        data_of_new new_data_def)
  have m2: "bd_m2 (data_of ?bm n) = 200"
    by (simp add: record_all_Cons record_all_Nil m2_record_value mean_record_value
        count_record_value data_of_new new_data_def)
  have "getBaseline ?bm n \<noteq> None"
    by (simp add: getBaseline_None present_record_all isReady_record_all)
  then obtain s where s: "getBaseline ?bm n = Some s" by auto
  have "bs_mean s = 100" "bs_variance s = 100"
    using getBaseline_fields(1,3)[OF s] by (simp_all add: cnt mean m2)
  moreover from this have "bs_stdDev s = Num 10"
    using getBaseline_fields(4)[OF s] by (simp add: Math_sqrt_def sqrt_100)
  ultimately show ?thesis using s by simp
qed


lemma EMA_detect_None: "getBaseline bm (m_name metric) = None \<Longrightarrow> EMA_detect metric bm this = (None, this)"
  by (simp add: EMA_detect_def)

lemma EMA_detect_zero:
  "getBaseline bm (m_name metric) = Some base \<Longrightarrow> bs_stdDev base = Num 0 \<Longrightarrow>
   EMA_detect metric bm this = (None, this)"
  by (simp add: EMA_detect_def)

lemma EMA_detect_ready:
  assumes "getBaseline bm (m_name metric) = Some base" and "bs_stdDev base = Num sd" and "sd \<noteq> 0"
    and "newEma = alpha this * m_value metric +
           (1 - alpha this) * (case emaValues this (m_name metric) of None \<Rightarrow> bs_mean base | Some e \<Rightarrow> e)"
    and "nd = \<bar>m_value metric - newEma\<bar> / sd"
  shows "EMA_detect metric bm this =
     (if nd \<le> deviationThreshold this then None
      else Some \<lparr>a_type = ''drift'',
                 a_severity = (if nd > deviationThreshold this * 2 then ''critical'' else ''warning''),
                 a_metric = metric,
                 a_baseline = (bs_mean base, Num sd),
                 a_score = Num (if deviationThreshold this * 2 = 0 then 1
                                else min 1 (nd / (deviationThreshold this * 2))),
                 a_context = EMAContext newEma (alpha this) (Num nd)\<rparr>,
      this\<lparr>emaValues := (emaValues this)(m_name metric \<mapsto> newEma)\<rparr>)"
  using assms by (simp add: EMA_detect_def Let_def)

lemma EMA_detect_state:
  assumes "getBaseline bm (m_name metric) = Some base" and "bs_stdDev base = Num sd" and "sd \<noteq> 0"
  shows "emaValues (snd (EMA_detect metric bm this)) (m_name metric) =
     Some (alpha this * m_value metric +
           (1 - alpha this) * (case emaValues this (m_name metric) of None \<Rightarrow> bs_mean base | Some e \<Rightarrow> e))"
  using EMA_detect_ready[OF assms refl refl, of this] by simp

lemma EMA_boundary:
  assumes b: "getBaseline bm (m_name metric) = Some base" and sd: "bs_stdDev base = Num sd" and nz: "sd \<noteq> 0"
    and e: "emaValues (snd (EMA_detect metric bm this)) (m_name metric) = Some newEma"
    and nd: "\<bar>m_value metric - newEma\<bar> / sd = 2 * deviationThreshold this"
  shows "fst (EMA_detect metric bm this) =
     (if 0 < deviationThreshold this
      then Some \<lparr>a_type = ''drift'', a_severity = ''warning'', a_metric = metric,
                 a_baseline = (bs_mean base, Num sd),
                 a_score = Num 1,
                 a_context = EMAContext newEma (alpha this) (Num (deviationThreshold this * 2))\<rparr>
      else None)"
proof -
  define t where "t = deviationThreshold this"
  define x where "x = \<bar>m_value metric - newEma\<bar> / sd"
  have ne: "newEma = alpha this * m_value metric +
           (1 - alpha this) * (case emaValues this (m_name metric) of None \<Rightarrow> bs_mean base | Some e \<Rightarrow> e)"
    using EMA_detect_state[OF b sd nz, of this] e by simp
  have x: "x = t * 2" using nd by (simp add: x_def t_def)
  have r: "fst (EMA_detect metric bm this) =
     (if x \<le> t then None
      else Some \<lparr>a_type = ''drift'',
                 a_severity = (if x > t * 2 then ''critical'' else ''warning''),
                 a_metric = metric,
                 a_baseline = (bs_mean base, Num sd),
                 a_score = Num (if t * 2 = 0 then 1 else min 1 (x / (t * 2))),
                 a_context = EMAContext newEma (alpha this) (Num x)\<rparr>)"
    unfolding EMA_detect_ready[OF b sd nz ne x_def] t_def by simp
  show ?thesis
    unfolding r x t_def[symmetric] by (cases "0 < t") auto
qed

lemma EMA_example_first:
  assumes h: "getBaseline bm n = Some base \<and> bs_mean base = 100 \<and> bs_stdDev base = Num 10"
  shows "EMA_detect \<lparr>m_name = n, m_value = 100, m_unit = u\<rparr> bm (EMAStrategy_new 0.5 2.5)
     = (None, (EMAStrategy_new 0.5 2.5)\<lparr>emaValues := (emaValues (EMAStrategy_new 0.5 2.5))(n \<mapsto> 100)\<rparr>)"
proof -
  let ?m1 = "\<lparr>m_name = n, m_value = 100, m_unit = u\<rparr>"
  let ?s0 = "EMAStrategy_new 0.5 2.5"
  have b: "getBaseline bm (m_name ?m1) = Some base" using h by simp
  have sd: "bs_stdDev base = Num 10" using h by simp
  have ne: "100 = alpha ?s0 * m_value ?m1 +
           (1 - alpha ?s0) * (case emaValues ?s0 (m_name ?m1) of None \<Rightarrow> bs_mean base | Some e \<Rightarrow> e)"
    using h by (simp add: EMAStrategy_new_def)
  have x: "(0::real) = \<bar>m_value ?m1 - 100\<bar> / 10" by simp
  have nz: "(10::real) \<noteq> 0" by simp
  show ?thesis
    by (subst EMA_detect_ready[OF b sd nz ne x]) (simp add: EMAStrategy_new_def)
qed

lemma EMA_example_second:
  assumes h: "getBaseline bm n = Some base \<and> bs_mean base = 100 \<and> bs_stdDev base = Num 10"
    and e: "emaValues this n = Some 100" and al: "alpha this = 0.5" and t: "deviationThreshold this = 2.5"
  shows "EMA_detect \<lparr>m_name = n, m_value = 200, m_unit = u\<rparr> bm this
     = (Some \<lparr>a_type = ''drift'', a_severity = ''warning'',
              a_metric = \<lparr>m_name = n, m_value = 200, m_unit = u\<rparr>,
              a_baseline = (100, Num 10), a_score = Num 1,
              a_context = EMAContext 150 0.5 (Num 5)\<rparr>,
        this\<lparr>emaValues := (emaValues this)(n \<mapsto> 150)\<rparr>)"
proof -
  let ?m2 = "\<lparr>m_name = n, m_value = 200, m_unit = u\<rparr>"
  have b: "getBaseline bm (m_name ?m2) = Some base" using h by simp
  have sd: "bs_stdDev base = Num 10" using h by simp
  have nz: "(10::real) \<noteq> 0" by simp
  have ne: "150 = alpha this * m_value ?m2 +
           (1 - alpha this) * (case emaValues this (m_name ?m2) of None \<Rightarrow> bs_mean base | Some e \<Rightarrow> e)"
    by (simp add: e al)
  have x: "(5::real) = \<bar>m_value ?m2 - 150\<bar> / 10" by simp
  show ?thesis
    by (subst EMA_detect_ready[OF b sd nz ne x]) (simp add: t al h)
qed

text \<open>
  C3. On a call with a ready baseline of nonzero standard deviation, \<open>EMAStrategy.detect\<close>
  stores \<open>alpha * value + (1 - alpha) * prevEma\<close> as the new trend of the metric, where
  \<open>prevEma\<close> is the mean of the baseline if the metric has no trend yet and the stored
  trend otherwise. When the normalized deviation \<open>|value - newEma| / stdDev\<close> is exactly
  twice the deviation threshold, a verdict is \<open>warning\<close>, never \<open>critical\<close> (and for a
  positive threshold there is a verdict). With \<open>alpha = 0.5\<close>, threshold 2.5, mean 100
  and standard deviation 10: the value 100 gives no verdict and the trend 100, the next
  value 200 gives the trend 150, the normalized deviation 5 and a \<open>warning\<close>.
\<close>

theorem ema_seeding_and_boundary:
  "(\<forall>base sd. getBaseline bm (m_name metric) = Some base \<and> bs_stdDev base = Num sd \<and> sd \<noteq> 0
        \<and> emaValues this (m_name metric) = None \<longrightarrow>
        emaValues (snd (EMA_detect metric bm this)) (m_name metric) =
          Some (alpha this * m_value metric + (1 - alpha this) * bs_mean base))
   \<and> (\<forall>base sd prevEma. getBaseline bm (m_name metric) = Some base \<and> bs_stdDev base = Num sd \<and> sd \<noteq> 0
        \<and> emaValues this (m_name metric) = Some prevEma \<longrightarrow>
        emaValues (snd (EMA_detect metric bm this)) (m_name metric) =
          Some (alpha this * m_value metric + (1 - alpha this) * prevEma))
   \<and> (\<forall>base sd newEma. getBaseline bm (m_name metric) = Some base \<and> bs_stdDev base = Num sd \<and> sd \<noteq> 0
        \<and> emaValues (snd (EMA_detect metric bm this)) (m_name metric) = Some newEma
        \<and> \<bar>m_value metric - newEma\<bar> / sd = 2 * deviationThreshold this \<longrightarrow>
        (0 < deviationThreshold this \<longrightarrow>
           (\<exists>a. fst (EMA_detect metric bm this) = Some a \<and> a_type a = ''drift''
              \<and> a_severity a = ''warning''))
        \<and> (\<forall>a. fst (EMA_detect metric bm this) = Some a \<longrightarrow> a_severity a = ''warning''))
   \<and> (\<forall>base. getBaseline bm n = Some base \<and> bs_mean base = 100 \<and> bs_stdDev base = Num 10 \<longrightarrow>
        (case EMA_detect \<lparr>m_name = n, m_value = 100, m_unit = u\<rparr> bm (EMAStrategy_new 0.5 2.5) of
           (r1, this1) \<Rightarrow>
             (case EMA_detect \<lparr>m_name = n, m_value = 200, m_unit = u\<rparr> bm this1 of
                (r2, this2) \<Rightarrow>
                  r1 = None \<and> emaValues this1 n = Some 100 \<and> emaValues this2 n = Some 150
                  \<and> (\<exists>a. r2 = Some a \<and> a_type a = ''drift'' \<and> a_severity a = ''warning''
                         \<and> a_context a = EMAContext 150 0.5 (Num 5)))))"
proof (intro conjI allI impI)
  fix base sd
  assume "getBaseline bm (m_name metric) = Some base \<and> bs_stdDev base = Num sd \<and> sd \<noteq> 0
        \<and> emaValues this (m_name metric) = None"
  then show "emaValues (snd (EMA_detect metric bm this)) (m_name metric) =
          Some (alpha this * m_value metric + (1 - alpha this) * bs_mean base)"
    using EMA_detect_state[of bm metric base sd this] by simp
next
  fix base sd prevEma
  assume "getBaseline bm (m_name metric) = Some base \<and> bs_stdDev base = Num sd \<and> sd \<noteq> 0
        \<and> emaValues this (m_name metric) = Some prevEma"
  then show "emaValues (snd (EMA_detect metric bm this)) (m_name metric) =
          Some (alpha this * m_value metric + (1 - alpha this) * prevEma)"
    using EMA_detect_state[of bm metric base sd this] by simp
next
  fix base sd newEma
  assume h: "getBaseline bm (m_name metric) = Some base \<and> bs_stdDev base = Num sd \<and> sd \<noteq> 0
        \<and> emaValues (snd (EMA_detect metric bm this)) (m_name metric) = Some newEma
        \<and> \<bar>m_value metric - newEma\<bar> / sd = 2 * deviationThreshold this"
    and pos: "0 < deviationThreshold this"
  show "\<exists>a. fst (EMA_detect metric bm this) = Some a \<and> a_type a = ''drift'' \<and> a_severity a = ''warning''"
    using EMA_boundary[of bm metric base sd this newEma] h pos by simp
next
  fix base sd newEma a
  assume h: "getBaseline bm (m_name metric) = Some base \<and> bs_stdDev base = Num sd \<and> sd \<noteq> 0
        \<and> emaValues (snd (EMA_detect metric bm this)) (m_name metric) = Some newEma
        \<and> \<bar>m_value metric - newEma\<bar> / sd = 2 * deviationThreshold this"
    and a: "fst (EMA_detect metric bm this) = Some a"
  have "fst (EMA_detect metric bm this) = None \<or> fst (EMA_detect metric bm this) =
          Some \<lparr>a_type = ''drift'', a_severity = ''warning'', a_metric = metric,
                a_baseline = (bs_mean base, Num sd),
                a_score = Num 1,
                a_context = EMAContext newEma (alpha this) (Num (deviationThreshold this * 2))\<rparr>"
    using EMA_boundary[of bm metric base sd this newEma] h
    by (cases "0 < deviationThreshold this") simp_all
  with a show "a_severity a = ''warning''" by auto
next
  fix base
  assume h: "getBaseline bm n = Some base \<and> bs_mean base = 100 \<and> bs_stdDev base = Num 10"
  let ?m1 = "\<lparr>m_name = n, m_value = 100, m_unit = u\<rparr>"
  let ?m2 = "\<lparr>m_name = n, m_value = 200, m_unit = u\<rparr>"
  let ?s0 = "EMAStrategy_new 0.5 2.5"
  let ?s1 = "?s0\<lparr>emaValues := (emaValues ?s0)(n \<mapsto> 100)\<rparr>"
  have one: "EMA_detect ?m1 bm ?s0 = (None, ?s1)"
    by (rule EMA_example_first[OF h])
  have two: "EMA_detect ?m2 bm ?s1 =
     (Some \<lparr>a_type = ''drift'', a_severity = ''warning'', a_metric = ?m2,
            a_baseline = (100, Num 10), a_score = Num 1,
            a_context = EMAContext 150 0.5 (Num 5)\<rparr>,
      ?s1\<lparr>emaValues := (emaValues ?s1)(n \<mapsto> 150)\<rparr>)"
    by (rule EMA_example_second[OF h]) (simp_all add: EMAStrategy_new_def)
  show "case EMA_detect ?m1 bm ?s0 of
           (r1, this1) \<Rightarrow>
             (case EMA_detect ?m2 bm this1 of
                (r2, this2) \<Rightarrow>
                  r1 = None \<and> emaValues this1 n = Some 100 \<and> emaValues this2 n = Some 150
                  \<and> (\<exists>a. r2 = Some a \<and> a_type a = ''drift'' \<and> a_severity a = ''warning''
                         \<and> a_context a = EMAContext 150 0.5 (Num 5)))"
    unfolding one prod.case two by simp
qed

theorem ema_seeding_and_boundary_witness:
  "(case EMA_detect \<lparr>m_name = ''heap_used'', m_value = 100, m_unit = ''bytes''\<rparr>
           (record_all [(''heap_used'', 90), (''heap_used'', 100), (''heap_used'', 110)] (BaselineManager_new 3 1))
           (EMAStrategy_new 0.5 2.5) of
      (r1, this1) \<Rightarrow>
        (case EMA_detect \<lparr>m_name = ''heap_used'', m_value = 200, m_unit = ''bytes''\<rparr>
           (record_all [(''heap_used'', 90), (''heap_used'', 100), (''heap_used'', 110)] (BaselineManager_new 3 1))
           this1 of
           (r2, this2) \<Rightarrow>
             r1 = None \<and> emaValues this1 ''heap_used'' = Some 100
             \<and> emaValues this2 ''heap_used'' = Some 150
             \<and> (\<exists>a. r2 = Some a \<and> a_type a = ''drift'' \<and> a_severity a = ''warning''
                    \<and> a_context a = EMAContext 150 0.5 (Num 5))))"
proof -
  let ?bm = "record_all [(''heap_used'', 90), (''heap_used'', 100), (''heap_used'', 110)] (BaselineManager_new 3 1)"
  obtain base where b: "getBaseline ?bm ''heap_used'' = Some base \<and> bs_mean base = 100
      \<and> bs_stdDev base = Num 10"
    using example_baseline[of "''heap_used''"] by auto
  show ?thesis
    by (rule ema_seeding_and_boundary[of ?bm "\<lparr>m_name = ''heap_used'', m_value = 100, m_unit = ''bytes''\<rparr>"
        "EMAStrategy_new 0.5 2.5" "''heap_used''" "''bytes''",
        THEN conjunct2, THEN conjunct2, THEN conjunct2, rule_format, OF b])
qed

text \<open>
  C9. When the metric has no ready baseline, or the standard deviation of its baseline is
  0, \<open>EMAStrategy.detect\<close> returns \<open>null\<close> and leaves the strategy, and so its map of
  trends, as it was; a call that changes the map has a ready baseline whose standard
  deviation is not 0.
\<close>

theorem ema_state_untouched_without_baseline:
  "(getBaseline bm (m_name metric) = None \<longrightarrow> EMA_detect metric bm this = (None, this))
   \<and> (\<forall>base. getBaseline bm (m_name metric) = Some base \<and> bs_stdDev base = Num 0 \<longrightarrow>
          EMA_detect metric bm this = (None, this))
   \<and> (emaValues (snd (EMA_detect metric bm this)) \<noteq> emaValues this \<longrightarrow>
          (\<exists>base. getBaseline bm (m_name metric) = Some base \<and> bs_stdDev base \<noteq> Num 0))"
proof (intro conjI allI impI)
  assume "getBaseline bm (m_name metric) = None"
  then show "EMA_detect metric bm this = (None, this)" by (rule EMA_detect_None)
next
  fix base assume "getBaseline bm (m_name metric) = Some base \<and> bs_stdDev base = Num 0"
  then show "EMA_detect metric bm this = (None, this)" by (simp add: EMA_detect_zero)
next
  assume ch: "emaValues (snd (EMA_detect metric bm this)) \<noteq> emaValues this"
  show "\<exists>base. getBaseline bm (m_name metric) = Some base \<and> bs_stdDev base \<noteq> Num 0"
  proof (cases "getBaseline bm (m_name metric)")
    case None
    then show ?thesis using ch by (simp add: EMA_detect_None)
  next
    case (Some base)
    then show ?thesis using ch by (cases "bs_stdDev base = Num 0") (simp_all add: EMA_detect_zero)
  qed
qed

theorem ema_state_untouched_without_baseline_witness:
  "EMA_detect \<lparr>m_name = ''fps'', m_value = 12, m_unit = ''fps''\<rparr> (BaselineManager_new 30 1)
       ((EMAStrategy_new 0.3 2.5)\<lparr>emaValues := [''fps'' \<mapsto> 60]\<rparr>)
     = (None, (EMAStrategy_new 0.3 2.5)\<lparr>emaValues := [''fps'' \<mapsto> 60]\<rparr>)
   \<and> EMA_detect \<lparr>m_name = ''fps'', m_value = 12, m_unit = ''fps''\<rparr>
       (record_all [(''fps'', 60), (''fps'', 60)] (BaselineManager_new 2 1))
       ((EMAStrategy_new 0.3 2.5)\<lparr>emaValues := [''fps'' \<mapsto> 60]\<rparr>)
     = (None, (EMAStrategy_new 0.3 2.5)\<lparr>emaValues := [''fps'' \<mapsto> 60]\<rparr>)"
proof -
  let ?m = "\<lparr>m_name = ''fps'', m_value = 12, m_unit = ''fps''\<rparr>"
  let ?s = "(EMAStrategy_new 0.3 2.5)\<lparr>emaValues := [''fps'' \<mapsto> 60]\<rparr>"
  let ?bm = "record_all [(''fps'', 60), (''fps'', 60)] (BaselineManager_new 2 1)"
  have none: "getBaseline (BaselineManager_new 30 1) (m_name ?m) = None"
    by (simp add: getBaseline_def BaselineManager_new_def)
  have m2: "bd_m2 (data_of ?bm ''fps'') = 0"
    by (simp add: record_all_Cons record_all_Nil m2_record_value mean_record_value
        count_record_value data_of_new new_data_def)
  have "getBaseline ?bm ''fps'' \<noteq> None"
    by (simp add: getBaseline_None present_record_all isReady_record_all)
  then obtain base where b: "getBaseline ?bm ''fps'' = Some base" by auto
  have "bs_variance base = 0"
    using getBaseline_fields(3)[OF b] by (simp add: m2)
  then have z: "bs_stdDev base = Num 0"
    using getBaseline_fields(4)[OF b] by (simp add: Math_sqrt_def)
  from b z have flat: "getBaseline ?bm (m_name ?m) = Some base \<and> bs_stdDev base = Num 0" by simp
  show ?thesis
    using ema_state_untouched_without_baseline[of "BaselineManager_new 30 1" ?m ?s, THEN conjunct1, rule_format, OF none]
      ema_state_untouched_without_baseline[of ?bm ?m ?s, THEN conjunct2, THEN conjunct1, rule_format, OF flat]
    by (rule conjI)
qed

section \<open>Properties of restore\<close>




lemma restore_parse_failure_noop:
  "restore Malformed bm = bm \<and> thrown (restore_try Malformed bm) = Some SyntaxError
   \<and> restore JsonNull bm = bm \<and> thrown (restore_try JsonNull bm) = Some TypeError"
  by (simp add: restore_def)

text \<open>
  C7. A \<open>restore\<close> that fails is meant to leave the manager as it was. On a text whose
  first entry is well formed and whose second entry is \<open>null\<close>, the \<open>try\<close> block throws a
  \<open>TypeError\<close> at the second entry, after the first has been stored: the manager that
  \<open>restore\<close> leaves behind differs from the one it was called on.
\<close>

theorem restore_failure_partially_applied:
  "thrown (restore_try
       (JsonObject [(''fps'', SavedObject \<lparr>s_count = 5, s_mean = 1, s_m2 = 0, s_min = Some 1, s_max = Some 1\<rparr>),
                    (''heap_used'', SavedNull)])
       (record_value ''fps'' 60 (BaselineManager_new 1 1))) = Some TypeError
   \<and> bd_mean (data_of (record_value ''fps'' 60 (BaselineManager_new 1 1)) ''fps'') = 60
   \<and> bd_mean (data_of (restore
       (JsonObject [(''fps'', SavedObject \<lparr>s_count = 5, s_mean = 1, s_m2 = 0, s_min = Some 1, s_max = Some 1\<rparr>),
                    (''heap_used'', SavedNull)])
       (record_value ''fps'' 60 (BaselineManager_new 1 1))) ''fps'') = 1
   \<and> restore
       (JsonObject [(''fps'', SavedObject \<lparr>s_count = 5, s_mean = 1, s_m2 = 0, s_min = Some 1, s_max = Some 1\<rparr>),
                    (''heap_used'', SavedNull)])
       (record_value ''fps'' 60 (BaselineManager_new 1 1))
     \<noteq> record_value ''fps'' 60 (BaselineManager_new 1 1)"
proof -
  let ?bm = "record_value ''fps'' 60 (BaselineManager_new 1 1)"
  let ?json = "JsonObject [(''fps'', SavedObject \<lparr>s_count = 5, s_mean = 1, s_m2 = 0, s_min = Some 1, s_max = Some 1\<rparr>),
                    (''heap_used'', SavedNull)]"
  have t: "thrown (restore_try ?json ?bm) = Some TypeError" by simp
  have before: "bd_mean (data_of ?bm ''fps'') = 60"
    by (simp add: mean_record_value data_of_new new_data_def)
  have after: "bd_mean (data_of (restore ?json ?bm) ''fps'') = 1"
    by (simp add: restore_def data_of_def update_conv')
  from before after have "restore ?json ?bm \<noteq> ?bm" by auto
  with t before after show ?thesis by blast
qed

section \<open>Properties of the baseline manager over the extended numbers\<close>

lemma threshold_above_MAX: "MAX_VALUE < overflow_threshold"
proof -
  have "(2::real) ^ 970 < 2 ^ 971" by (rule power_strict_increasing) simp_all
  then show ?thesis by (simp add: MAX_VALUE_def overflow_threshold_def)
qed

lemma MAX_VALUE_pos: "0 < MAX_VALUE"
proof -
  have "(2::real) ^ 971 < 2 ^ 1024" by (rule power_strict_increasing) simp_all
  then show ?thesis by (simp add: MAX_VALUE_def)
qed

lemma overflow_Finite: "\<bar>r\<bar> \<le> MAX_VALUE \<Longrightarrow> overflow r = Finite r"
  using threshold_above_MAX unfolding overflow_def by (auto simp add: abs_le_iff)

lemma overflow_small: "\<bar>r\<bar> \<le> 1000000 \<Longrightarrow> overflow r = Finite r"
proof -
  have "(1000000::real) \<le> 2 ^ 20" by simp
  also have "(2::real) ^ 20 \<le> 2 ^ 971" by (rule power_increasing) simp_all
  also have "(2::real) ^ 971 \<le> MAX_VALUE"
  proof -
    have "(2::real) * 2 ^ 971 \<le> 2 ^ 1024"
      using power_increasing[of 972 1024 "2::real"] by simp
    then show ?thesis by (simp add: MAX_VALUE_def)
  qed
  finally have "(1000000::real) \<le> MAX_VALUE" .
  then show "\<bar>r\<bar> \<le> 1000000 \<Longrightarrow> overflow r = Finite r"
    by (intro overflow_Finite) linarith
qed

lemma overflow_cases:
  "0 \<le> r \<Longrightarrow> overflow r = Finite r \<or> overflow r = PlusInfinity"
  using threshold_above_MAX MAX_VALUE_pos unfolding overflow_def by auto

lemma overflow_nonnegative: "0 \<le> r \<Longrightarrow> nonnegative (overflow r)"
  using overflow_cases[of r] by auto

lemma subtract_Finite: "subtract (Finite a) (Finite b) = overflow (a - b)"
  by (simp add: subtract_def)

lemma add_nonnegative:
  assumes "nonnegative a" and "nonnegative b"
  shows "nonnegative (add a b)" and "less_equal a (add a b)"
proof -
  have "nonnegative (add a b) \<and> less_equal a (add a b)"
  proof (cases a)
    case (Finite q)
    show ?thesis
    proof (cases b)
      case (Finite p)
      with assms \<open>a = Finite q\<close> have "0 \<le> q" "0 \<le> p" by simp_all
      then have "0 \<le> q + p" by simp
      from overflow_cases[OF this] \<open>0 \<le> p\<close> \<open>0 \<le> q + p\<close> show ?thesis
        by (auto simp add: \<open>a = Finite q\<close> Finite)
    qed (use assms Finite in simp_all)
  next
    case PlusInfinity
    with assms show ?thesis by (cases b) simp_all
  qed (use assms in simp_all)
  then show "nonnegative (add a b)" and "less_equal a (add a b)" by simp_all
qed

lemma record_valueX_minSamples: "xminSamples (record_valueX n v bm) = xminSamples bm"
  by (simp add: record_valueX_def Let_def)

lemma record_valueX_other:
  "n' \<noteq> n \<Longrightarrow> map_of (xbaselines (record_valueX n v bm)) n' = map_of (xbaselines bm) n'"
  by (simp add: record_valueX_def Let_def update_conv')

lemma data_ofX_record_valueX_other: "n' \<noteq> n \<Longrightarrow> data_ofX (record_valueX n v bm) n' = data_ofX bm n'"
  by (simp add: data_ofX_def record_valueX_other)

lemma record_valueX_present:
  "map_of (xbaselines (record_valueX n v bm)) n = Some (data_ofX (record_valueX n v bm) n)"
  by (simp add: data_ofX_def record_valueX_def Let_def update_conv')

lemma countX_record_valueX:
  "xd_count (data_ofX (record_valueX n v bm) n) =
     NumberValue (increment (ToNumber (xd_count (data_ofX bm n))))"
  by (simp add: data_ofX_def[of "record_valueX n v bm"] record_valueX_def Let_def update_conv' data_ofX_def)

lemma meanX_record_valueX:
  "xd_mean (data_ofX (record_valueX n v bm) n) =
     NumberValue (add (ToNumber (xd_mean (data_ofX bm n)))
        (divide_number (subtract (Finite v) (ToNumber (xd_mean (data_ofX bm n))))
           (increment (ToNumber (xd_count (data_ofX bm n))))))"
  by (simp add: data_ofX_def[of "record_valueX n v bm"] record_valueX_def Let_def update_conv' data_ofX_def)

lemma m2X_record_valueX:
  "xd_m2 (data_ofX (record_valueX n v bm) n) =
     NumberValue (add (ToNumber (xd_m2 (data_ofX bm n)))
        (multiply (subtract (Finite v) (ToNumber (xd_mean (data_ofX bm n))))
                  (subtract (Finite v) (ToNumber (xd_mean (data_ofX (record_valueX n v bm) n))))))"
  by (simp add: data_ofX_def[of "record_valueX n v bm"] record_valueX_def Let_def update_conv' data_ofX_def)


lemma convex_step:
  fixes m v B k :: real
  assumes "\<bar>m\<bar> \<le> B" and "\<bar>v\<bar> \<le> B" and "0 \<le> k"
  shows "\<bar>m + (v - m) / (k + 1)\<bar> \<le> B"
proof -
  define t where "t = 1 / (k + 1)"
  have t: "0 \<le> t" "t \<le> 1" using assms(3) by (simp_all add: t_def)
  have "(v - m) / (k + 1) = t * (v - m)" by (simp add: t_def)
  then have eq: "m + (v - m) / (k + 1) = (1 - t) * m + t * v"
    by (simp add: algebra_simps)
  have "\<bar>(1 - t) * m + t * v\<bar> \<le> \<bar>(1 - t) * m\<bar> + \<bar>t * v\<bar>" by (rule abs_triangle_ineq)
  also have "\<dots> = (1 - t) * \<bar>m\<bar> + t * \<bar>v\<bar>" using t by (simp add: abs_mult)
  also have "\<dots> \<le> (1 - t) * B + t * B"
    using t assms by (intro add_mono mult_left_mono) simp_all
  also have "\<dots> = B" by (simp add: algebra_simps)
  finally show ?thesis by (simp only: eq)
qed

lemma welford_product_nonneg:
  fixes m v k :: real
  assumes "0 \<le> k"
  shows "0 \<le> (v - m) * (v - (m + (v - m) / (k + 1)))"
proof -
  have k: "k + 1 \<noteq> 0" using assms by simp
  have "v - (m + (v - m) / (k + 1)) = (v - m) * (k / (k + 1))"
    using k by (simp add: field_simps)
  then have "(v - m) * (v - (m + (v - m) / (k + 1))) = (v - m)\<^sup>2 * (k / (k + 1))"
    by (simp add: power2_eq_square)
  then show ?thesis using assms by simp
qed

lemma stepX:
  assumes mean: "xd_mean (data_ofX bm n) = NumberValue (Finite m)" and m: "\<bar>m\<bar> \<le> MAX_VALUE / 2"
    and v: "\<bar>v\<bar> \<le> MAX_VALUE / 2"
    and m2: "nonnegative (ToNumber (xd_m2 (data_ofX bm n)))"
    and count: "xd_count (data_ofX bm n) = NumberValue (Finite k)" and k: "0 \<le> k"
  shows "xd_mean (data_ofX (record_valueX n v bm) n) = NumberValue (Finite (m + (v - m) / (k + 1)))"
    and "\<bar>m + (v - m) / (k + 1)\<bar> \<le> MAX_VALUE / 2"
    and "nonnegative (ToNumber (xd_m2 (data_ofX (record_valueX n v bm) n)))"
    and "less_equal (ToNumber (xd_m2 (data_ofX bm n))) (ToNumber (xd_m2 (data_ofX (record_valueX n v bm) n)))"
proof -
  let ?m' = "m + (v - m) / (k + 1)"
  have P: "0 < MAX_VALUE" by (rule MAX_VALUE_pos)
  have d: "\<bar>v - m\<bar> \<le> MAX_VALUE" using m v by linarith
  have delta: "subtract (Finite v) (Finite m) = Finite (v - m)"
    by (simp only: subtract_Finite overflow_Finite[OF d])
  have "\<bar>(v - m) / (k + 1)\<bar> \<le> \<bar>v - m\<bar>"
    using k by (simp add: abs_divide divide_le_eq mult_le_cancel_left1)
  with d have q: "\<bar>(v - m) / (k + 1)\<bar> \<le> MAX_VALUE" by linarith
  have quot: "divide_number (Finite (v - m)) (Finite (k + 1)) = Finite ((v - m) / (k + 1))"
    using overflow_Finite[OF q] k by simp
  show b: "\<bar>?m'\<bar> \<le> MAX_VALUE / 2" by (rule convex_step[OF m v k])
  then have "\<bar>?m'\<bar> \<le> MAX_VALUE" using P by linarith
  then have sum: "add (Finite m) (Finite ((v - m) / (k + 1))) = Finite ?m'"
    using overflow_Finite by simp
  show mean': "xd_mean (data_ofX (record_valueX n v bm) n) = NumberValue (Finite ?m')"
    by (simp only: meanX_record_valueX mean count ToNumber.simps increment.simps delta quot sum)
  have d2: "\<bar>v - ?m'\<bar> \<le> MAX_VALUE" using b v by linarith
  have delta2: "subtract (Finite v) (Finite ?m') = Finite (v - ?m')"
    by (simp only: subtract_Finite overflow_Finite[OF d2])
  have prod: "multiply (Finite (v - m)) (Finite (v - ?m')) = overflow ((v - m) * (v - ?m'))"
    by simp
  have pn: "nonnegative (overflow ((v - m) * (v - ?m')))"
    by (rule overflow_nonnegative) (rule welford_product_nonneg[OF k])
  have m2': "ToNumber (xd_m2 (data_ofX (record_valueX n v bm) n)) =
        add (ToNumber (xd_m2 (data_ofX bm n))) (overflow ((v - m) * (v - ?m')))"
    by (simp only: m2X_record_valueX mean mean' ToNumber.simps delta delta2 prod)
  show "nonnegative (ToNumber (xd_m2 (data_ofX (record_valueX n v bm) n)))"
    unfolding m2' by (rule add_nonnegative(1)[OF m2 pn])
  show "less_equal (ToNumber (xd_m2 (data_ofX bm n))) (ToNumber (xd_m2 (data_ofX (record_valueX n v bm) n)))"
    unfolding m2' by (rule add_nonnegative(2)[OF m2 pn])
qed

lemma record_allX_Nil: "record_allX [] bm = bm"
  by (simp add: record_allX_def)

lemma record_allX_Cons: "record_allX ((n, v) # cs) bm = record_allX cs (record_valueX n v bm)"
  by (simp add: record_allX_def)

lemma record_allX_snoc: "record_allX (cs @ [(n, v)]) bm = record_valueX n v (record_allX cs bm)"
  by (simp add: record_allX_def)

lemma record_allX_minSamples: "xminSamples (record_allX cs bm) = xminSamples bm"
  by (induction cs rule: rev_induct) (auto simp: record_allX_Nil record_allX_snoc record_valueX_minSamples)

lemma data_ofX_new: "data_ofX (BaselineManagerX_new L R) n = new_dataX"
  by (simp add: data_ofX_def BaselineManagerX_new_def)

lemma xminSamples_new: "xminSamples (BaselineManagerX_new L R) = overflow (L * R)"
  by (simp add: BaselineManagerX_new_def)

lemma countX_record_allX:
  "xd_count (data_ofX (record_allX cs (BaselineManagerX_new L R)) n) =
     NumberValue (Finite (real (length (filter (\<lambda>c. fst c = n) cs))))"
proof (induction cs rule: rev_induct)
  case Nil
  then show ?case by (simp add: record_allX_Nil data_ofX_new new_dataX_def)
next
  case (snoc c cs)
  obtain n' v where c: "c = (n', v)" by (cases c)
  show ?case
  proof (cases "n' = n")
    case True
    then show ?thesis using snoc by (simp add: c record_allX_snoc countX_record_valueX)
  next
    case False
    then show ?thesis using snoc by (simp add: c record_allX_snoc data_ofX_record_valueX_other)
  qed
qed

lemma presentX_record_allX:
  "(map_of (xbaselines (record_allX cs (BaselineManagerX_new L R))) n = None) = (filter (\<lambda>c. fst c = n) cs = [])"
proof (induction cs rule: rev_induct)
  case Nil
  then show ?case by (simp add: record_allX_Nil BaselineManagerX_new_def)
next
  case (snoc c cs)
  obtain n' v where c: "c = (n', v)" by (cases c)
  show ?case
  proof (cases "n' = n")
    case True
    then show ?thesis by (simp add: c record_allX_snoc record_valueX_present)
  next
    case False
    then show ?thesis using snoc by (simp add: c record_allX_snoc record_valueX_other)
  qed
qed

lemma isReadyX_data_ofX:
  "isReadyX bm n = less_equal (xminSamples bm) (ToNumber (xd_count (data_ofX bm n)))"
  by (simp add: isReadyX_def data_ofX_def new_dataX_def split: option.splits)

lemma getBaselineX_None:
  "(getBaselineX bm n = None) = (map_of (xbaselines bm) n = None \<or> \<not> isReadyX bm n)"
  by (simp add: getBaselineX_def Let_def split: option.splits)


lemma getBaselineX_fields:
  assumes "getBaselineX bm n = Some s"
  shows "xs_variance s = (if less (Finite 1) (ToNumber (xd_count (data_ofX bm n)))
                          then divide_number (ToNumber (xd_m2 (data_ofX bm n)))
                                 (decrement (ToNumber (xd_count (data_ofX bm n))))
                          else Finite 0)"
    and "xs_stdDev s = sqrt_number (xs_variance s)"
  using assms
  by (auto simp add: getBaselineX_def Let_def data_ofX_def split: option.splits if_splits)

lemma invariantX:
  assumes "\<forall>c \<in> set cs. \<bar>snd c\<bar> \<le> MAX_VALUE / 2"
  shows "(\<exists>m. xd_mean (data_ofX (record_allX cs (BaselineManagerX_new L R)) n) = NumberValue (Finite m)
              \<and> \<bar>m\<bar> \<le> MAX_VALUE / 2)
         \<and> nonnegative (ToNumber (xd_m2 (data_ofX (record_allX cs (BaselineManagerX_new L R)) n)))"
  using assms
proof (induction cs rule: rev_induct)
  case Nil
  then show ?case using MAX_VALUE_pos by (simp add: record_allX_Nil data_ofX_new new_dataX_def)
next
  case (snoc c cs)
  obtain n' v where c: "c = (n', v)" by (cases c)
  let ?bm = "record_allX cs (BaselineManagerX_new L R)"
  from snoc obtain m where m: "xd_mean (data_ofX ?bm n) = NumberValue (Finite m)" "\<bar>m\<bar> \<le> MAX_VALUE / 2"
    and m2: "nonnegative (ToNumber (xd_m2 (data_ofX ?bm n)))"
    by auto
  from snoc.prems c have v: "\<bar>v\<bar> \<le> MAX_VALUE / 2" by simp
  have k: "(0::real) \<le> real (length (filter (\<lambda>c. fst c = n) cs))" by simp
  show ?case
  proof (cases "n' = n")
    case True
    from stepX[OF m v m2 countX_record_allX k] show ?thesis
      by (auto simp add: c True record_allX_snoc)
  next
    case False
    then show ?thesis using m m2 by (simp add: c record_allX_snoc data_ofX_record_valueX_other)
  qed
qed

lemma less_equal_refl: "nonnegative a \<Longrightarrow> less_equal a a"
  by (cases a) simp_all

lemma variance_nonnegative:
  assumes "nonnegative a" and "1 < k"
  shows "nonnegative (divide_number a (Finite (k - 1)))"
proof (cases a)
  case (Finite q)
  with assms have "0 \<le> q / (k - 1)" by simp
  from overflow_nonnegative[OF this] assms(2) show ?thesis by (simp add: Finite)
next
  case PlusInfinity
  with assms show ?thesis by simp
qed (use assms in simp_all)

lemma sqrt_nonnegative: "nonnegative a \<Longrightarrow> nonnegative (sqrt_number a)"
  by (cases a) simp_all

lemma nonnegative_not_NaN: "nonnegative a \<Longrightarrow> a \<noteq> NotANumber"
  by (cases a) simp_all

text \<open>
  C10, for values in range. In every state reached from a new manager by \<open>record\<close> calls
  whose values are at most \<open>Number.MAX_VALUE / 2\<close> in magnitude, the sum of squared
  deviations of a metric is nonnegative (a finite number from 0, or \<open>Infinity\<close>), and a
  further such \<open>record\<close> call does not lower it; so the variance of every snapshot is
  nonnegative, and its standard deviation is nonnegative and not \<open>NaN\<close> (both can be
  \<open>Infinity\<close>).
\<close>

theorem m2_nonnegative_nondecreasing_in_range:
  assumes "\<forall>c \<in> set calls. \<bar>snd c\<bar> \<le> MAX_VALUE / 2" and "\<bar>v\<bar> \<le> MAX_VALUE / 2"
  shows "nonnegative (ToNumber (xd_m2 (data_ofX (record_allX calls (BaselineManagerX_new L R)) n)))
       \<and> less_equal (ToNumber (xd_m2 (data_ofX (record_allX calls (BaselineManagerX_new L R)) n)))
            (ToNumber (xd_m2 (data_ofX (record_valueX n' v (record_allX calls (BaselineManagerX_new L R))) n)))
       \<and> (\<forall>s. getBaselineX (record_allX calls (BaselineManagerX_new L R)) n = Some s \<longrightarrow>
              nonnegative (xs_variance s) \<and> nonnegative (xs_stdDev s) \<and> xs_stdDev s \<noteq> NotANumber)"
proof -
  let ?bm = "record_allX calls (BaselineManagerX_new L R)"
  let ?k = "real (length (filter (\<lambda>c. fst c = n) calls))"
  from invariantX[OF assms(1), of L R n] obtain m where
    m: "xd_mean (data_ofX ?bm n) = NumberValue (Finite m)" "\<bar>m\<bar> \<le> MAX_VALUE / 2"
    and m2: "nonnegative (ToNumber (xd_m2 (data_ofX ?bm n)))"
    by auto
  have k: "0 \<le> ?k" by simp
  have mono: "less_equal (ToNumber (xd_m2 (data_ofX ?bm n)))
            (ToNumber (xd_m2 (data_ofX (record_valueX n' v ?bm) n)))"
  proof (cases "n' = n")
    case True
    then show ?thesis using stepX(4)[OF m assms(2) m2 countX_record_allX k] by simp
  next
    case False
    then show ?thesis using m2 by (simp add: data_ofX_record_valueX_other less_equal_refl)
  qed
  have snap: "nonnegative (xs_variance s) \<and> nonnegative (xs_stdDev s) \<and> xs_stdDev s \<noteq> NotANumber"
    if s: "getBaselineX ?bm n = Some s" for s
  proof -
    have var: "nonnegative (xs_variance s)"
      using getBaselineX_fields(1)[OF s] variance_nonnegative[OF m2, of ?k]
      by (simp add: countX_record_allX less_def)
    then have "nonnegative (xs_stdDev s)"
      using getBaselineX_fields(2)[OF s] by (simp add: sqrt_nonnegative)
    with var show ?thesis by (simp add: nonnegative_not_NaN)
  qed
  show ?thesis using m2 mono snap by blast
qed

lemma MAX_VALUE_1e307: "(10::real) ^ 307 \<le> MAX_VALUE / 2"
  by (simp add: MAX_VALUE_def)

text \<open>
  The values \<open>1e307\<close> and \<open>-1e307\<close> are in range.
\<close>

theorem m2_nonnegative_nondecreasing_in_range_witness:
  "(10::real) ^ 307 \<le> MAX_VALUE / 2
   \<and> nonnegative (ToNumber (xd_m2 (data_ofX
        (record_allX [(''fps'', 10 ^ 307), (''fps'', - (10 ^ 307))] (BaselineManagerX_new 2 1)) ''fps'')))
   \<and> (\<exists>s. getBaselineX (record_allX [(''fps'', 10 ^ 307), (''fps'', - (10 ^ 307))]
                            (BaselineManagerX_new 2 1)) ''fps'' = Some s
         \<and> nonnegative (xs_variance s) \<and> xs_stdDev s \<noteq> NotANumber)"
proof -
  let ?cs = "[(''fps'', (10::real) ^ 307), (''fps'', - (10 ^ 307))]"
  let ?bm = "record_allX ?cs (BaselineManagerX_new 2 1)"
  have h: "\<forall>c \<in> set ?cs. \<bar>snd c\<bar> \<le> MAX_VALUE / 2"
    using MAX_VALUE_1e307 by simp
  have h': "\<bar>(0::real)\<bar> \<le> MAX_VALUE / 2" using MAX_VALUE_pos by simp
  have "getBaselineX ?bm ''fps'' \<noteq> None"
    by (simp add: getBaselineX_None presentX_record_allX isReadyX_data_ofX countX_record_allX
        record_allX_minSamples xminSamples_new overflow_small)
  then obtain s where s: "getBaselineX ?bm ''fps'' = Some s" by auto
  from m2_nonnegative_nondecreasing_in_range[OF h h', of 2 1 "''fps''" "''fps''"] s MAX_VALUE_1e307
  show ?thesis by blast
qed

lemma two_opposite_samples:
  assumes v: "0 \<le> v" "v \<le> MAX_VALUE" and big: "overflow_threshold \<le> 2 * v"
  shows "xd_m2 (data_ofX (record_allX [(n, v), (n, - v)] (BaselineManagerX_new 2 1)) n)
           = NumberValue MinusInfinity"
    and "map_option xs_variance
           (getBaselineX (record_allX [(n, v), (n, - v)] (BaselineManagerX_new 2 1)) n) = Some MinusInfinity"
    and "map_option xs_stdDev
           (getBaselineX (record_allX [(n, v), (n, - v)] (BaselineManagerX_new 2 1)) n) = Some NotANumber"
proof -
  let ?bm1 = "record_valueX n v (BaselineManagerX_new 2 1)"
  let ?bm = "record_allX [(n, v), (n, - v)] (BaselineManagerX_new 2 1)"
  have T: "0 < overflow_threshold" using threshold_above_MAX MAX_VALUE_pos by linarith
  have o0: "overflow 0 = Finite 0" using T by (simp add: overflow_def)
  have o1: "overflow v = Finite v"
    by (rule overflow_Finite) (use v in simp)
  have o2: "overflow (- (2 * v)) = MinusInfinity"
    using big T v by (simp add: overflow_def)
  have c1: "xd_count (data_ofX ?bm1 n) = NumberValue (Finite 1)"
    by (simp add: countX_record_valueX data_ofX_new new_dataX_def)
  have mean1: "xd_mean (data_ofX ?bm1 n) = NumberValue (Finite v)"
    by (simp add: meanX_record_valueX data_ofX_new new_dataX_def subtract_Finite o1)
  have m21: "xd_m2 (data_ofX ?bm1 n) = NumberValue (Finite 0)"
    by (simp add: m2X_record_valueX mean1 data_ofX_new new_dataX_def subtract_Finite o1 o0)
  have bm: "?bm = record_valueX n (- v) ?bm1"
    by (simp add: record_allX_Cons record_allX_Nil)
  have cnt: "xd_count (data_ofX ?bm n) = NumberValue (Finite 2)"
    by (simp add: countX_record_allX)
  have mean2: "xd_mean (data_ofX ?bm n) = NumberValue MinusInfinity"
    unfolding bm by (subst meanX_record_valueX) (simp add: mean1 c1 subtract_Finite o2)
  show m22: "xd_m2 (data_ofX ?bm n) = NumberValue MinusInfinity"
    unfolding bm
    by (subst m2X_record_valueX) (simp add: mean2[unfolded bm] mean1 m21 subtract_Finite o2 subtract_def)
  have "getBaselineX ?bm n \<noteq> None"
    by (simp add: getBaselineX_None presentX_record_allX isReadyX_data_ofX countX_record_allX
        record_allX_minSamples xminSamples_new overflow_small)
  then obtain s where s: "getBaselineX ?bm n = Some s" by auto
  have var: "xs_variance s = MinusInfinity"
    using getBaselineX_fields(1)[OF s] by (simp add: cnt m22 less_def)
  then have sd: "xs_stdDev s = NotANumber"
    using getBaselineX_fields(2)[OF s] by simp
  show "map_option xs_variance (getBaselineX ?bm n) = Some MinusInfinity" by (simp add: s var)
  show "map_option xs_stdDev (getBaselineX ?bm n) = Some NotANumber" by (simp add: s sd)
qed

text \<open>
  C10 as stated fails for larger values. Record \<open>1e308\<close> and then \<open>-1e308\<close> for a metric
  in a manager that is ready after two samples. In the second call \<open>delta\<close> is
  \<open>-1e308 - 1e308\<close>, which overflows to \<open>-Infinity\<close>; the mean becomes \<open>-Infinity\<close>,
  \<open>delta2\<close> is \<open>Infinity\<close>, and their product makes the sum of squared deviations
  \<open>-Infinity\<close>. The snapshot has the variance \<open>-Infinity\<close> and the standard deviation
  \<open>NaN\<close>.
\<close>

theorem m2_negative_after_overflow:
  "(10::real) ^ 308 \<le> MAX_VALUE
   \<and> xd_m2 (data_ofX (record_allX [(''x'', 10 ^ 308), (''x'', - (10 ^ 308))] (BaselineManagerX_new 2 1)) ''x'')
       = NumberValue MinusInfinity
   \<and> map_option xs_variance
         (getBaselineX (record_allX [(''x'', 10 ^ 308), (''x'', - (10 ^ 308))] (BaselineManagerX_new 2 1)) ''x'')
       = Some MinusInfinity
   \<and> map_option xs_stdDev
         (getBaselineX (record_allX [(''x'', 10 ^ 308), (''x'', - (10 ^ 308))] (BaselineManagerX_new 2 1)) ''x'')
       = Some NotANumber"
proof -
  have pos: "(0::real) \<le> 10 ^ 308" by simp
  have fin: "(10::real) ^ 308 \<le> MAX_VALUE" by (simp add: MAX_VALUE_def)
  have big: "overflow_threshold \<le> 2 * 10 ^ 308" by (simp add: overflow_threshold_def)
  from two_opposite_samples[OF pos fin big, of "''x''"] fin show ?thesis by (intro conjI)
qed































section \<open>Properties of the event bus\<close>

lemma dispatch_Normal:
  "\<exists>console'. dispatch run ls ev (w, console) = Normal (deliver run ls ev w, console')"
proof (induction ls arbitrary: w console)
  case Nil
  then show ?case by (simp add: deliver_def)
next
  case (Cons l ls)
  show ?case
  proof (cases "run l ev w")
    case (Normal w')
    with Cons[of w' console] show ?thesis by (simp add: deliver_def)
  next
    case (Throw e w')
    with Cons[of w' "console @ [(e_type ev, e)]"] show ?thesis by (simp add: deliver_def)
  qed
qed

lemma on_listeners:
  "map_of (eb_listeners (on type l bus)) type =
     Some (Set_add l (case map_of (eb_listeners bus) type of None \<Rightarrow> [] | Some ls \<Rightarrow> ls))"
  by (simp add: on_def Let_def update_conv')

text \<open>
  C8. \<open>emit\<close> calls every listener registered for the type, in the order of the set,
  each on the world that the one before it left behind, whether that one returned or
  threw; \<open>emit\<close> itself completes normally. The order of the set is the order of
  subscription: \<open>on\<close> puts a listener that is not yet in the set at its end.
\<close>

theorem emit_delivers_in_subscription_order:
  "(\<forall>ls. map_of (eb_listeners bus) type = Some ls \<longrightarrow>
      (\<exists>bus' console'. emit run env type source payload (bus, w, console) =
          Normal (bus', deliver run ls
                    \<lparr>e_type = type, e_timestamp = performance_now env, e_wallTime = Date_now env,
                     e_source = source, e_payload = payload, e_sessionId = getSessionId env,
                     e_pageUrl = location_href env\<rparr> w, console')
          \<and> eb_listeners bus' = eb_listeners bus))
   \<and> thrown (emit run env type source payload (bus, w, console)) = None
   \<and> (\<forall>ls. map_of (eb_listeners bus) type = Some ls \<and> l \<notin> set ls \<longrightarrow>
          map_of (eb_listeners (on type l bus)) type = Some (ls @ [l]))
   \<and> (map_of (eb_listeners bus) type = None \<longrightarrow>
          map_of (eb_listeners (on type l bus)) type = Some [l])"
proof -
  let ?ev = "\<lparr>e_type = type, e_timestamp = performance_now env, e_wallTime = Date_now env,
                     e_source = source, e_payload = payload, e_sessionId = getSessionId env,
                     e_pageUrl = location_href env\<rparr>"
  have a: "\<exists>bus' console'. emit run env type source payload (bus, w, console) =
          Normal (bus', deliver run ls ?ev w, console') \<and> eb_listeners bus' = eb_listeners bus"
    if "map_of (eb_listeners bus) type = Some ls" for ls
  proof -
    obtain console' where "dispatch run ls ?ev (w, console) = Normal (deliver run ls ?ev w, console')"
      using dispatch_Normal[of run ls ?ev w console] by blast
    with that show ?thesis by (simp add: emit_def Let_def)
  qed
  have b: "thrown (emit run env type source payload (bus, w, console)) = None"
  proof (cases "map_of (eb_listeners bus) type")
    case None
    then show ?thesis by (simp add: emit_def Let_def)
  next
    case (Some ls)
    from a[OF Some] show ?thesis by auto
  qed
  have c: "map_of (eb_listeners (on type l bus)) type = Some (ls @ [l])"
    if "map_of (eb_listeners bus) type = Some ls \<and> l \<notin> set ls" for ls
    using that by (simp add: on_listeners Set_add_def)
  have d: "map_of (eb_listeners bus) type = None \<longrightarrow>
          map_of (eb_listeners (on type l bus)) type = Some [l]"
    by (simp add: on_listeners Set_add_def)
  show ?thesis using a b c d by blast
qed

theorem emit_delivers_in_subscription_order_witness:
  "emit (\<lambda>l ev w. if l = 1 then Throw ''boom'' (w @ [l]) else Normal (w @ [l]))
        \<lparr>performance_now = 5, Date_now = 1700, getSessionId = ''s'', location_href = ''/page''\<rparr>
        ''metric:collected'' ''CpuCollector'' (42 :: nat)
        (on ''metric:collected'' 2 (on ''metric:collected'' 1 EventBus_new), [], [])
   = Normal (on ''metric:collected'' 2 (on ''metric:collected'' 1 EventBus_new)
               \<lparr>eb_history := [\<lparr>e_type = ''metric:collected'', e_timestamp = 5, e_wallTime = 1700,
                                 e_source = ''CpuCollector'', e_payload = 42, e_sessionId = ''s'',
                                 e_pageUrl = ''/page''\<rparr>]\<rparr>,
             [1, 2], [(''metric:collected'', ''boom'')])
   \<and> map_of (eb_listeners (on ''metric:collected'' 2 (on ''metric:collected'' 1 (EventBus_new :: nat EventBus))))
        ''metric:collected'' = Some [1, 2]"
proof -
  let ?bus0 = "EventBus_new :: nat EventBus"
  let ?bus1 = "on ''metric:collected'' 1 ?bus0"
  let ?bus2 = "on ''metric:collected'' 2 ?bus1"
  let ?run = "\<lambda>(l::nat) (ev::nat event) (w::nat list). if l = 1 then Throw ''boom'' (w @ [l]) else Normal (w @ [l])"
  let ?env = "\<lparr>performance_now = 5, Date_now = 1700, getSessionId = ''s'', location_href = ''/page''\<rparr>"
  have n0: "map_of (eb_listeners ?bus0) ''metric:collected'' = None"
    by (simp add: EventBus_new_def)
  have l1: "map_of (eb_listeners ?bus1) ''metric:collected'' = Some [1]"
    using emit_delivers_in_subscription_order[of ?bus0 "''metric:collected''" ?run ?env "''CpuCollector''" 42 "[]" "[]" 1] n0
    by blast
  have l2: "map_of (eb_listeners ?bus2) ''metric:collected'' = Some [1, 2]"
    using emit_delivers_in_subscription_order[of ?bus1 "''metric:collected''" ?run ?env "''CpuCollector''" 42 "[]" "[]" 2] l1
    by simp
  have e: "emit ?run ?env ''metric:collected'' ''CpuCollector'' 42 (?bus2, [], [])
     = Normal (?bus2\<lparr>eb_history := [\<lparr>e_type = ''metric:collected'', e_timestamp = 5, e_wallTime = 1700,
                                 e_source = ''CpuCollector'', e_payload = 42, e_sessionId = ''s'',
                                 e_pageUrl = ''/page''\<rparr>]\<rparr>,
             [1, 2], [(''metric:collected'', ''boom'')])"
    by (simp add: emit_def Let_def on_def EventBus_new_def Set_add_def)
  show ?thesis using e l2 by (rule conjI)
qed

end
